theory Spec2Isabelle
  imports Complex_Main "HOL-Library.Log_Nat" "HOL-Library.Multiset"
begin

section \<open>Python values\<close>

text \<open>
  A Python \<open>str\<close> is a sequence of Unicode code points. File contents, paths and file
  names are all of this type; \<open>lit\<close> embeds an ASCII literal of the source.
\<close>

type_synonym pystr = "nat list"

definition lit :: "string \<Rightarrow> pystr" where
  "lit s = map of_char s"

text \<open>
  \<open>str.isspace\<close> for one code point: the table behind CPython's
  \<open>_PyUnicode_IsWhitespace\<close> (bidirectional type WS, B or S, or category Zs).
\<close>

definition isspace :: "nat \<Rightarrow> bool" where
  "isspace c \<longleftrightarrow>
     (9 \<le> c \<and> c \<le> 13) \<or> (28 \<le> c \<and> c \<le> 32) \<or> c = 133 \<or> c = 160 \<or> c = 5760 \<or>
     (8192 \<le> c \<and> c \<le> 8202) \<or> c = 8232 \<or> c = 8233 \<or> c = 8239 \<or> c = 8287 \<or> c = 12288"

text \<open>
  \<open>str.split()\<close> without arguments: skip a run of whitespace; stop at the end of the
  string; otherwise take the run of non-whitespace as one token and go on behind it.
\<close>

function str_split :: "pystr \<Rightarrow> pystr list" where
  "str_split s =
     (let s1 = dropWhile isspace s
      in if s1 = [] then []
         else takeWhile (\<lambda>c. \<not> isspace c) s1 # str_split (dropWhile (\<lambda>c. \<not> isspace c) s1))"
  by pat_completeness auto
termination
proof (relation "measure length")
  show "wf (measure length)" by simp
next
  fix s s1 :: pystr
  assume s1: "s1 = dropWhile isspace s" and ne: "s1 \<noteq> []"
  from ne obtain c t where ct: "s1 = c # t" by (cases s1) auto
  from ne have "\<not> isspace (hd s1)" unfolding s1 by (rule hd_dropWhile)
  then have "\<not> isspace c" using ct by simp
  then have "dropWhile (\<lambda>c. \<not> isspace c) s1 = dropWhile (\<lambda>c. \<not> isspace c) t"
    using ct by simp
  then have "length (dropWhile (\<lambda>c. \<not> isspace c) s1) \<le> length t"
    by (simp add: length_dropWhile_le)
  also have "length t < length s1" using ct by simp
  also have "length s1 \<le> length s" using s1 by (simp add: length_dropWhile_le)
  finally show "(dropWhile (\<lambda>c. \<not> isspace c) s1, s) \<in> measure length" by simp
qed

declare str_split.simps [simp del]


section \<open>Exceptions and printed output\<close>

text \<open>
  The exceptions that the program can meet, each with the text that \<open>str(e)\<close> gives.
  \<open>OSError\<close> stands for every failure of a system call (missing file, no permission,
  not a directory); \<open>UnicodeDecodeError\<close> for bytes that are not UTF-8;
  \<open>UnicodeEncodeError\<close> for a character that the standard output cannot encode;
  \<open>StatisticsError\<close> is the exception of the \<open>statistics\<close> module. All four are
  subclasses of \<open>Exception\<close>, and none is a subclass of another.
\<close>

datatype pyexn =
  OSError pystr | UnicodeDecodeError pystr | UnicodeEncodeError pystr | StatisticsError pystr

fun exn_text :: "pyexn \<Rightarrow> pystr" where
  "exn_text (OSError m) = m"
| "exn_text (UnicodeDecodeError m) = m"
| "exn_text (UnicodeEncodeError m) = m"
| "exn_text (StatisticsError m) = m"

text \<open>
  A value that reaches \<open>print\<close>: an \<open>int\<close>, a \<open>float\<close> (the exact rational value of
  the double) or a \<open>str\<close>. One call of \<open>print\<close> with an f-string is the list of the
  f-string's pieces: literal text, \<open>{v}\<close> and \<open>{v:.2f}\<close>.
\<close>

datatype pyval = PyInt int | PyFloat rat | PyStr pystr

datatype piece = Lit string | Fmt pyval | Fmt2f pyval

type_synonym printed = "piece list"

section \<open>The operating system\<close>

text \<open>
  What the program asks of the operating system. \<open>fs_listdir\<close> is \<open>os.listdir\<close>;
  \<open>fs_lstat\<close> gives the type of the object a path names, without following a final
  symbolic link (a link carries the path it points to); \<open>fs_read_text\<close> is
  \<open>open(path, 'r', encoding='utf-8')\<close> followed by \<open>read()\<close>, giving the decoded text
  or the exception of the open, the read or the decoding; \<open>stdout_encodes\<close> says
  which code points beyond ASCII the encoding and error handler of \<open>sys.stdout\<close> can
  write (under UTF-8 with the handler \<open>strict\<close>, all but the surrogates, which
  \<open>os.listdir\<close> puts into a name for bytes that are not UTF-8).
\<close>

datatype ftype = S_IFREG | S_IFDIR | S_IFLNK pystr | S_IFCHR | S_IFBLK | S_IFIFO | S_IFSOCK

record os_env =
  fs_listdir :: "pystr \<Rightarrow> pyexn + pystr list"
  fs_lstat :: "pystr \<Rightarrow> pyexn + ftype"
  fs_read_text :: "pystr \<Rightarrow> pyexn + pystr"
  stdout_encodes :: "nat \<Rightarrow> bool"

text \<open>
  \<open>os.stat\<close> follows symbolic links; the kernel gives up with ELOOP after 40 links.
\<close>

fun follow :: "nat \<Rightarrow> os_env \<Rightarrow> pystr \<Rightarrow> pyexn + ftype" where
  "follow 0 fs p = Inl (OSError (lit ''Too many levels of symbolic links''))"
| "follow (Suc k) fs p =
     (case fs_lstat fs p of
        Inl e \<Rightarrow> Inl e
      | Inr (S_IFLNK target) \<Rightarrow> follow k fs target
      | Inr t \<Rightarrow> Inr t)"

definition os_stat :: "os_env \<Rightarrow> pystr \<Rightarrow> pyexn + ftype" where
  "os_stat fs p = follow 41 fs p"

text \<open>
  \<open>os.path.isfile\<close>: \<open>os.stat\<close> failing means \<open>False\<close>, otherwise \<open>S_ISREG\<close>.
\<close>

definition os_path_isfile :: "os_env \<Rightarrow> pystr \<Rightarrow> bool" where
  "os_path_isfile fs p = (case os_stat fs p of Inl e \<Rightarrow> False | Inr t \<Rightarrow> t = S_IFREG)"

text \<open>
  \<open>os.path.join\<close> of POSIX for two components; 47 is the slash.
\<close>

definition os_path_join :: "pystr \<Rightarrow> pystr \<Rightarrow> pystr" where
  "os_path_join a b =
     (if b \<noteq> [] \<and> hd b = 47 then b
      else if a = [] \<or> last a = 47 then a @ b
      else a @ [47] @ b)"

subsection \<open>\<open>print\<close>\<close>

text \<open>
  \<open>print\<close> encodes the whole text before it writes any of it, and raises
  \<open>UnicodeEncodeError\<close> when a character cannot be encoded. The literal texts of the
  program and the digits of a number are ASCII, which every encoding of a standard output
  encodes; a file name, a path and the text of an exception can hold any code point. The
  standard output is taken to be open and writable. The text of the exception names the
  codec and the character; the model has one text for all.
\<close>

definition printable :: "os_env \<Rightarrow> pystr \<Rightarrow> bool" where
  "printable fs s \<longleftrightarrow> (\<forall>c\<in>set s. c < 128 \<or> stdout_encodes fs c)"

fun piece_encodable :: "os_env \<Rightarrow> piece \<Rightarrow> bool" where
  "piece_encodable fs (Fmt (PyStr s)) = printable fs s"
| "piece_encodable fs p = True"

definition encode_error :: pyexn where
  "encode_error = UnicodeEncodeError (lit ''character cannot be encoded'')"

definition py_print :: "os_env \<Rightarrow> printed \<Rightarrow> pyexn option" where
  "py_print fs line = (if list_all (piece_encodable fs) line then None else Some encode_error)"

text \<open>
  Calls of \<open>print\<close> one after the other: what has been printed, and the exception
  that ended the sequence, if any.
\<close>

fun print_lines :: "os_env \<Rightarrow> printed list \<Rightarrow> printed list \<Rightarrow> printed list \<times> pyexn option" where
  "print_lines fs out [] = (out, None)"
| "print_lines fs out (line # rest) =
     (case py_print fs line of
        Some e \<Rightarrow> (out, Some e)
      | None \<Rightarrow> print_lines fs (out @ [line]) rest)"

section \<open>The program\<close>

subsection \<open>\<open>count_words_in_file\<close>\<close>

text \<open>
  The result is the pair of what was printed and the value returned, or the exception
  that left the function. Every exception of the \<open>with\<close> block is caught by
  \<open>except Exception\<close>; an exception of the \<open>print\<close> inside the handler is not caught.
\<close>

definition error_line :: "pystr \<Rightarrow> pyexn \<Rightarrow> printed" where
  "error_line filepath e =
     [Lit ''Error reading '', Fmt (PyStr filepath), Lit '': '', Fmt (PyStr (exn_text e))]"

definition count_words_in_file :: "os_env \<Rightarrow> pystr \<Rightarrow> printed list \<times> (pyexn + int)" where
  "count_words_in_file fs filepath =
     (case fs_read_text fs filepath of
        Inr text \<Rightarrow> ([], Inr (int (length (str_split text))))
      | Inl e \<Rightarrow>
          (case py_print fs (error_line filepath e) of
             None \<Rightarrow> ([error_line filepath e], Inr 0)
           | Some e' \<Rightarrow> ([], Inl e')))"

subsection \<open>Words as the glossary defines them\<close>

text \<open>
  A maximal run of non-whitespace characters starts at an index that holds a
  non-whitespace character and is either the first index or preceded by a whitespace
  character. The number of maximal runs is the number of such indices.
\<close>

definition maximal_runs :: "pystr \<Rightarrow> nat" where
  "maximal_runs s =
     length (filter (\<lambda>i. \<not> isspace (s ! i) \<and> (i = 0 \<or> isspace (s ! (i - 1)))) [0..<length s])"

text \<open>
  The same number, computed along the string: \<open>run_starts p s\<close> counts the
  non-whitespace characters of \<open>s\<close> that follow a whitespace character, where \<open>p\<close>
  says whether the position before \<open>s\<close> counts as whitespace.
\<close>

fun run_starts :: "bool \<Rightarrow> pystr \<Rightarrow> nat" where
  "run_starts p [] = 0"
| "run_starts p (c # s) = (if p \<and> \<not> isspace c then 1 else 0) + run_starts (isspace c) s"

subsection \<open>Floating point\<close>

text \<open>
  A \<open>float\<close> is a double: 53 significant bits, results rounded to the nearest
  representable value, ties to the even significand. A double is modelled by its exact
  rational value. For \<open>0 < x\<close>, \<open>binary_exponent x\<close> is the \<open>e\<close> with
  \<open>2\<^sup>e \<le> x < 2\<^sup>e\<^sup>+\<^sup>1\<close>, and \<open>to_double x\<close> rounds \<open>x\<close> to a multiple of
  \<open>2\<^sup>e\<^sup>-\<^sup>5\<^sup>2\<close>. The exponent range of a double (overflow above \<open>2\<^sup>1\<^sup>0\<^sup>2\<^sup>4\<close>, subnormal
  numbers below \<open>2\<^sup>-\<^sup>1\<^sup>0\<^sup>2\<^sup>2\<close>) is not modelled: the numbers of this program are
  quotients of sums of list lengths by list lengths, and a list length is below
  \<open>2\<^sup>6\<^sup>3\<close>, so they stay far inside that range.
\<close>

definition binary_exponent :: "rat \<Rightarrow> int" where
  "binary_exponent x =
     (let (a, b) = quotient_of x; d = bitlen a - bitlen b
      in if 2 powi d \<le> x then d else d - 1)"

definition round_half_even :: "rat \<Rightarrow> int" where
  "round_half_even x =
     (let f = \<lfloor>x\<rfloor>; r = x - of_int f
      in if r < 1 / 2 then f else if 1 / 2 < r then f + 1 else if even f then f else f + 1)"

definition to_double :: "rat \<Rightarrow> rat" where
  "to_double x =
     (if x = 0 then 0
      else let e = binary_exponent \<bar>x\<bar>; ulp = 2 powi (e - 52)
           in sgn x * of_int (round_half_even (\<bar>x\<bar> / ulp)) * ulp)"

text \<open>
  The number that \<open>{v:.2f}\<close> displays: an \<open>int\<close> is converted to \<open>float\<close> first, and
  the double is then rounded to two decimals, ties to even. A \<open>str\<close> has no such format.
\<close>

definition shown_2f :: "pyval \<Rightarrow> rat option" where
  "shown_2f v =
     (case v of
        PyInt k \<Rightarrow> Some (of_int (round_half_even (to_double (of_int k) * 100)) / 100)
      | PyFloat x \<Rightarrow> Some (of_int (round_half_even (x * 100)) / 100)
      | PyStr s \<Rightarrow> None)"

text \<open>The number a value stands for.\<close>

definition number_of :: "pyval \<Rightarrow> rat option" where
  "number_of v = (case v of PyInt k \<Rightarrow> Some (of_int k) | PyFloat x \<Rightarrow> Some x | PyStr s \<Rightarrow> None)"

subsection \<open>The \<open>statistics\<close> module\<close>

text \<open>
  \<open>statistics.mean\<close> on a list of \<open>int\<close>: the exact fraction \<open>total / n\<close>, returned as
  an \<open>int\<close> when its denominator is 1 and converted to \<open>float\<close> otherwise.
\<close>

definition statistics_mean :: "int list \<Rightarrow> pyexn + pyval" where
  "statistics_mean data =
     (let total = sum_list data; n = int (length data)
      in if n < 1 then Inl (StatisticsError (lit ''mean requires at least one data point''))
         else if total mod n \<noteq> 0 then Inr (PyFloat (to_double (of_int total / of_int n)))
         else Inr (PyInt (total div n)))"

text \<open>
  \<open>statistics.median\<close>: the middle element of the sorted data, or the true division by
  2 of the sum of the two middle elements, which is a \<open>float\<close>.
\<close>

definition statistics_median :: "int list \<Rightarrow> pyexn + pyval" where
  "statistics_median data0 =
     (let data = sort data0; n = length data
      in if n = 0 then Inl (StatisticsError (lit ''no median for empty data''))
         else if n mod 2 = 1 then Inr (PyInt (data ! (n div 2)))
         else let i = n div 2
              in Inr (PyFloat (to_double (of_int (data ! (i - 1) + data ! i) / 2))))"

text \<open>
  \<open>statistics.mode\<close> (Python 3.8 and later) is
  \<open>Counter(iter(data)).most_common(1)\<close>, of which it returns the first key, raising
  \<open>StatisticsError\<close> when there is none. A \<open>Counter\<close> keeps its keys in the order of
  their first occurrence; \<open>most_common(1)\<close> is \<open>max\<close> by count over the items, and
  \<open>max\<close> keeps the first of several maximal items.
\<close>

fun counter_add :: "int \<Rightarrow> (int \<times> nat) list \<Rightarrow> (int \<times> nat) list" where
  "counter_add x [] = [(x, 1)]"
| "counter_add x (kc # kcs) =
     (if fst kc = x then (fst kc, snd kc + 1) # kcs else kc # counter_add x kcs)"

definition Counter :: "int list \<Rightarrow> (int \<times> nat) list" where
  "Counter data = foldl (\<lambda>items x. counter_add x items) [] data"

fun max_by_count :: "int \<times> nat \<Rightarrow> (int \<times> nat) list \<Rightarrow> int \<times> nat" where
  "max_by_count best [] = best"
| "max_by_count best (kc # kcs) =
     (if snd best < snd kc then max_by_count kc kcs else max_by_count best kcs)"

definition most_common_1 :: "(int \<times> nat) list \<Rightarrow> (int \<times> nat) list" where
  "most_common_1 items = (case items of [] \<Rightarrow> [] | kc # kcs \<Rightarrow> [max_by_count kc kcs])"

definition statistics_mode :: "int list \<Rightarrow> pyexn + int" where
  "statistics_mode data =
     (case most_common_1 (Counter data) of
        [] \<Rightarrow> Inl (StatisticsError (lit ''no mode for empty data''))
      | kc # kcs \<Rightarrow> Inr (fst kc))"

subsection \<open>\<open>analyze_directory_word_counts\<close>\<close>

text \<open>
  \<open>file_word_map[filename] = word_count\<close> on a \<open>dict\<close>, which keeps its keys in
  insertion order: a key that is present keeps its place.
\<close>

fun dict_set :: "(pystr \<times> int) list \<Rightarrow> pystr \<Rightarrow> int \<Rightarrow> (pystr \<times> int) list" where
  "dict_set [] k v = [(k, v)]"
| "dict_set (kv # kvs) k v = (if fst kv = k then (k, v) # kvs else kv # dict_set kvs k v)"

text \<open>
  The state of the enumeration loop: \<open>word_counts\<close>, \<open>file_word_map\<close> and what has
  been printed so far.
\<close>

type_synonym scan_state = "int list \<times> (pystr \<times> int) list \<times> printed list"

text \<open>
  One iteration gives the next state and the exception that leaves the loop, if any; the
  loop stops at the first exception, in the state it has reached.
\<close>

definition loop_body ::
  "os_env \<Rightarrow> pystr \<Rightarrow> scan_state \<Rightarrow> pystr \<Rightarrow> scan_state \<times> pyexn option" where
  "loop_body fs directory st filename =
     (case st of (word_counts, file_word_map, out) \<Rightarrow>
        let filepath = os_path_join directory filename
        in if os_path_isfile fs filepath
           then (case count_words_in_file fs filepath of
                   (msgs, Inr word_count) \<Rightarrow>
                     ((word_counts @ [word_count],
                       dict_set file_word_map filename word_count, out @ msgs), None)
                 | (msgs, Inl e) \<Rightarrow> ((word_counts, file_word_map, out @ msgs), Some e))
           else (st, None))"

fun loop ::
  "os_env \<Rightarrow> pystr \<Rightarrow> scan_state \<Rightarrow> pystr list \<Rightarrow> scan_state \<times> pyexn option" where
  "loop fs directory st [] = (st, None)"
| "loop fs directory st (filename # rest) =
     (case loop_body fs directory st filename of
        (st', Some e) \<Rightarrow> (st', Some e)
      | (st', None) \<Rightarrow> loop fs directory st' rest)"

text \<open>
  The \<open>try\<close> around \<open>statistics.mode\<close> catches \<open>StatisticsError\<close> and nothing else.
\<close>

definition mode_or_marker :: "pyexn + int \<Rightarrow> pyexn + pyval" where
  "mode_or_marker r =
     (case r of
        Inr m \<Rightarrow> Inr (PyInt m)
      | Inl (StatisticsError msg) \<Rightarrow> Inr (PyStr (lit ''No unique mode''))
      | Inl e \<Rightarrow> Inl e)"

definition per_file_line :: "pystr \<Rightarrow> int \<Rightarrow> printed" where
  "per_file_line file n =
     [Lit ''  '', Fmt (PyStr file), Lit '': '', Fmt (PyInt n), Lit '' words'']"

definition per_file_lines :: "(pystr \<times> int) list \<Rightarrow> printed list" where
  "per_file_lines file_word_map = map (\<lambda>(file, n). per_file_line file n) file_word_map"

definition summary_lines :: "int \<Rightarrow> pyval \<Rightarrow> pyval \<Rightarrow> pyval \<Rightarrow> printed list" where
  "summary_lines total_words mean_words median_words mode_words =
     [[Lit (CHR 0x0A # ''Summary statistics:'')],
      [Lit ''  Total words: '', Fmt (PyInt total_words)],
      [Lit ''  Mean words per file: '', Fmt2f mean_words],
      [Lit ''  Median words per file: '', Fmt median_words],
      [Lit ''  Mode words per file: '', Fmt mode_words]]"

text \<open>
  The part of the function behind the loop. The result is what has been printed when the
  function is left, and the exception that left it, if any. The statistics are all
  computed before the first line of the report is printed.
\<close>

definition report :: "os_env \<Rightarrow> scan_state \<Rightarrow> printed list \<times> pyexn option" where
  "report fs st =
     (case st of (word_counts, file_word_map, out) \<Rightarrow>
        if word_counts = [] then print_lines fs out [[Lit ''No readable files found.'']]
        else
          let total_words = sum_list word_counts
          in (case statistics_mean word_counts of
                Inl e \<Rightarrow> (out, Some e)
              | Inr mean_words \<Rightarrow>
                  (case statistics_median word_counts of
                     Inl e \<Rightarrow> (out, Some e)
                   | Inr median_words \<Rightarrow>
                       (case mode_or_marker (statistics_mode word_counts) of
                          Inl e \<Rightarrow> (out, Some e)
                        | Inr mode_words \<Rightarrow>
                            print_lines fs out
                              ([[Lit (CHR 0x0A # ''Word count per file:'')]]
                               @ per_file_lines file_word_map
                               @ summary_lines total_words mean_words median_words
                                   mode_words)))))"

definition analyze_directory_word_counts ::
  "os_env \<Rightarrow> pystr \<Rightarrow> printed list \<times> pyexn option" where
  "analyze_directory_word_counts fs directory =
     (case fs_listdir fs directory of
        Inl e \<Rightarrow> ([], Some e)
      | Inr names \<Rightarrow>
          (case loop fs directory ([], [], []) names of
             (st, Some e) \<Rightarrow> (snd (snd st), Some e)
           | (st, None) \<Rightarrow> report fs st))"


section \<open>Notions for the statements\<close>

text \<open>
  The entries of a listing that pass the test of the loop.
\<close>

definition regular_entries :: "os_env \<Rightarrow> pystr \<Rightarrow> pystr list \<Rightarrow> pystr list" where
  "regular_entries fs directory names =
     filter (\<lambda>n. os_path_isfile fs (os_path_join directory n)) names"

text \<open>
  The count that \<open>count_words_in_file\<close> returns for a path, and 0 where it raises.
\<close>

definition counted :: "os_env \<Rightarrow> pystr \<Rightarrow> int" where
  "counted fs filepath =
     (case snd (count_words_in_file fs filepath) of Inr k \<Rightarrow> k | Inl e \<Rightarrow> 0)"

text \<open>
  An entry at which the loop is left: a regular file for which \<open>count_words_in_file\<close>
  raises. The entries in front of the first such entry are the ones the loop gets through.
\<close>

definition stops :: "os_env \<Rightarrow> pystr \<Rightarrow> pystr \<Rightarrow> bool" where
  "stops fs directory n \<longleftrightarrow>
     os_path_isfile fs (os_path_join directory n) \<and>
     (case snd (count_words_in_file fs (os_path_join directory n)) of
        Inl e \<Rightarrow> True | Inr k \<Rightarrow> False)"

definition passed :: "os_env \<Rightarrow> pystr \<Rightarrow> pystr list \<Rightarrow> pystr list" where
  "passed fs directory names = takeWhile (\<lambda>n. \<not> stops fs directory n) names"

text \<open>
  The counts, the map and the messages that a list of regular entries leaves behind.
\<close>

definition counts_of :: "os_env \<Rightarrow> pystr \<Rightarrow> pystr list \<Rightarrow> int list" where
  "counts_of fs directory entries = map (\<lambda>n. counted fs (os_path_join directory n)) entries"

definition word_map_of :: "os_env \<Rightarrow> pystr \<Rightarrow> pystr list \<Rightarrow> (pystr \<times> int) list" where
  "word_map_of fs directory entries =
     foldl (\<lambda>m n. dict_set m n (counted fs (os_path_join directory n))) [] entries"

definition messages_of :: "os_env \<Rightarrow> pystr \<Rightarrow> pystr list \<Rightarrow> printed list" where
  "messages_of fs directory entries =
     concat (map (\<lambda>n. fst (count_words_in_file fs (os_path_join directory n))) entries)"

text \<open>
  The standard output can encode what a run on a listing prints beyond ASCII: the name
  of every regular entry and, where the entry cannot be read, its path and the text of
  the exception.
\<close>

definition stdout_shows :: "os_env \<Rightarrow> pystr \<Rightarrow> pystr list \<Rightarrow> bool" where
  "stdout_shows fs directory names \<longleftrightarrow>
     (\<forall>n\<in>set (regular_entries fs directory names).
        printable fs n \<and>
        (\<forall>e. fs_read_text fs (os_path_join directory n) = Inl e \<longrightarrow>
           printable fs (os_path_join directory n) \<and> printable fs (exn_text e)))"

text \<open>
  The median as the standard definition has it: over the sorted counts, the middle
  element when their number is odd, the average of the two middle elements when it is
  even.
\<close>

definition median_of_sorted :: "int list \<Rightarrow> rat" where
  "median_of_sorted counts =
     (let s = sort counts; n = length s
      in if odd n then of_int (s ! (n div 2))
         else (of_int (s ! (n div 2 - 1)) + of_int (s ! (n div 2))) / 2)"

text \<open>
  The mean as the data model has it: the total divided by the number of files.
\<close>

definition exact_mean :: "int list \<Rightarrow> rat" where
  "exact_mean counts = of_int (sum_list counts) / of_int (int (length counts))"

section \<open>An example file system\<close>

text \<open>
  Directory \<open>d\<close> holds the two files of the specification's example. Directory \<open>m\<close>
  holds a subdirectory, a character device, a symbolic link to \<open>d/a.txt\<close>, a symbolic
  link to nothing, a regular file that is not UTF-8 and a regular file of two blanks.
  Directory \<open>e\<close> holds a subdirectory only. Directory \<open>u\<close> holds one regular file
  that is not UTF-8 and whose name ends in the surrogate U+DC80. Every other path does
  not exist. The standard output is UTF-8 with the handler \<open>strict\<close>.
\<close>

definition enoent :: pyexn where
  "enoent = OSError (lit ''No such file or directory'')"

definition mk_fs ::
  "(pystr \<times> pystr list) list \<Rightarrow> (pystr \<times> ftype) list \<Rightarrow> (pystr \<times> (pyexn + pystr)) list
     \<Rightarrow> os_env" where
  "mk_fs dirs types contents =
     \<lparr>fs_listdir = (\<lambda>p. case map_of dirs p of None \<Rightarrow> Inl enoent | Some names \<Rightarrow> Inr names),
      fs_lstat = (\<lambda>p. case map_of types p of None \<Rightarrow> Inl enoent | Some t \<Rightarrow> Inr t),
      fs_read_text = (\<lambda>p. case map_of contents p of None \<Rightarrow> Inl enoent | Some r \<Rightarrow> r),
      stdout_encodes = (\<lambda>c. c < 55296 \<or> (57343 < c \<and> c < 1114112))\<rparr>"

definition example_fs :: os_env where
  "example_fs = mk_fs
     [(lit ''d'', [lit ''a.txt'', lit ''b.txt'']),
      (lit ''m'', [lit ''sub'', lit ''tty'', lit ''link'', lit ''gone'', lit ''bad'', lit ''c'']),
      (lit ''e'', [lit ''sub'']),
      (lit ''u'', [[120, 56448]])]
     [(lit ''d'', S_IFDIR), (lit ''m'', S_IFDIR), (lit ''e'', S_IFDIR), (lit ''u'', S_IFDIR),
      (lit ''u/'' @ [120, 56448], S_IFREG),
      (lit ''d/a.txt'', S_IFREG), (lit ''d/b.txt'', S_IFREG),
      (lit ''m/sub'', S_IFDIR), (lit ''m/tty'', S_IFCHR),
      (lit ''m/link'', S_IFLNK (lit ''d/a.txt'')), (lit ''m/gone'', S_IFLNK (lit ''m/x'')),
      (lit ''m/bad'', S_IFREG), (lit ''m/c'', S_IFREG),
      (lit ''e/sub'', S_IFDIR)]
     [(lit ''d/a.txt'', Inr (lit ''one two three'')), (lit ''d/b.txt'', Inr (lit ''four five'')),
      (lit ''m/link'', Inr (lit ''one two three'')),
      (lit ''m/bad'', Inl (UnicodeDecodeError (lit ''invalid start byte''))),
      (lit ''m/c'', Inr (lit ''  '')),
      (lit ''u/'' @ [120, 56448], Inl (UnicodeDecodeError (lit ''invalid start byte'')))]"

section \<open>Properties\<close>

subsection \<open>Splitting at whitespace\<close>

lemma run_starts_index:
  "length (filter (\<lambda>i. \<not> isspace (s ! i) \<and> (if i = 0 then p else isspace (s ! (i - 1)))) [0..<length s])
     = run_starts p s"
proof (induction s arbitrary: p)
  case Nil
  show ?case by simp
next
  case (Cons c s)
  have upt: "[0..<length (c # s)] = 0 # map Suc [0..<length s]"
    by (simp add: upt_conv_Cons map_Suc_upt del: upt_Suc)
  have "filter (\<lambda>i. \<not> isspace ((c # s) ! i) \<and> (if i = 0 then p else isspace ((c # s) ! (i - 1))))
          (map Suc [0..<length s])
        = map Suc (filter (\<lambda>i. \<not> isspace (s ! i) \<and> (if i = 0 then isspace c else isspace (s ! (i - 1))))
          [0..<length s])"
    by (simp add: filter_map comp_def nth_Cons' cong: filter_cong)
  then show ?case
    unfolding upt using Cons.IH [of "isspace c"] by simp
qed

lemma run_starts_skip_space: "run_starts True (dropWhile isspace s) = run_starts True s"
  by (induction s) simp_all

lemma run_starts_skip_word:
  "run_starts True (dropWhile (\<lambda>c. \<not> isspace c) s) = run_starts False s"
  by (induction s) simp_all

lemma length_str_split: "length (str_split s) = run_starts True s"
proof (induction s rule: str_split.induct)
  case (1 s)
  define s1 where "s1 = dropWhile isspace s"
  show ?case
  proof (cases "s1 = []")
    case True
    then have "str_split s = []" by (simp add: str_split.simps [of s] s1_def)
    moreover have "run_starts True s = run_starts True s1"
      by (simp add: s1_def run_starts_skip_space)
    ultimately show ?thesis using True by simp
  next
    case False
    then obtain c t where ct: "s1 = c # t" by (cases s1) auto
    from False have "\<not> isspace (hd s1)" unfolding s1_def by (rule hd_dropWhile)
    then have c: "\<not> isspace c" using ct by simp
    have "length (str_split s) = Suc (length (str_split (dropWhile (\<lambda>c. \<not> isspace c) s1)))"
      using False by (simp add: str_split.simps [of s] s1_def Let_def)
    also have "\<dots> = Suc (run_starts True (dropWhile (\<lambda>c. \<not> isspace c) s1))"
      using "1.IH" [OF s1_def False] by simp
    also have "\<dots> = Suc (run_starts False s1)" by (simp add: run_starts_skip_word)
    also have "\<dots> = run_starts True s1" using ct c by simp
    also have "\<dots> = run_starts True s" by (simp add: s1_def run_starts_skip_space)
    finally show ?thesis .
  qed
qed

lemma length_str_split_runs: "length (str_split s) = maximal_runs s"
proof -
  have "(\<lambda>i. \<not> isspace (s ! i) \<and> (i = 0 \<or> isspace (s ! (i - 1))))
      = (\<lambda>i. \<not> isspace (s ! i) \<and> (if i = 0 then True else isspace (s ! (i - 1))))"
    by auto
  then have "maximal_runs s = run_starts True s"
    unfolding maximal_runs_def using run_starts_index [of s True] by simp
  then show ?thesis by (simp add: length_str_split)
qed

lemma str_split_all_space: "(\<forall>c\<in>set s. isspace c) \<Longrightarrow> str_split s = []"
  by (simp add: str_split.simps [of s])

lemma run_starts_zero: "run_starts True s = 0 \<longleftrightarrow> (\<forall>c\<in>set s. isspace c)"
  by (induction s) auto

subsection \<open>The dictionary\<close>

lemma dict_set_keys: "fst ` set (dict_set m k v) = insert k (fst ` set m)"
  by (induction m) auto

lemma dict_set_fresh: "k \<notin> fst ` set m \<Longrightarrow> dict_set m k v = m @ [(k, v)]"
  by (induction m) auto

lemma dict_set_same:
  "\<forall>kv\<in>set m. fst kv = k \<longrightarrow> snd kv = v \<Longrightarrow> set (dict_set m k v) = insert (k, v) (set m)"
  by (induction m) (auto simp: prod_eq_iff)

lemma fold_dict_set_fresh:
  "distinct ns \<Longrightarrow> set ns \<inter> fst ` set m = {} \<Longrightarrow>
     foldl (\<lambda>m n. dict_set m n (f n)) m ns = m @ map (\<lambda>n. (n, f n)) ns"
proof (induction ns arbitrary: m)
  case Nil
  show ?case by simp
next
  case (Cons n ns)
  from Cons.prems have fresh: "n \<notin> fst ` set m" by auto
  have "set ns \<inter> fst ` set (m @ [(n, f n)]) = {}" using Cons.prems by auto
  with Cons.IH [of "m @ [(n, f n)]"] Cons.prems show ?case
    by (simp add: dict_set_fresh [OF fresh])
qed

lemma fold_dict_set_set:
  "\<forall>kv\<in>set m. snd kv = f (fst kv) \<Longrightarrow>
     set (foldl (\<lambda>m n. dict_set m n (f n)) m ns) = set m \<union> (\<lambda>n. (n, f n)) ` set ns"
proof (induction ns arbitrary: m)
  case Nil
  show ?case by simp
next
  case (Cons n ns)
  have s: "set (dict_set m n (f n)) = insert (n, f n) (set m)"
    using Cons.prems by (intro dict_set_same) auto
  then have "\<forall>kv\<in>set (dict_set m n (f n)). snd kv = f (fst kv)" using Cons.prems by auto
  from Cons.IH [OF this] s show ?case by auto
qed

subsection \<open>The statistics return\<close>

lemma statistics_mean_returns: "data \<noteq> [] \<Longrightarrow> \<exists>v. statistics_mean data = Inr v"
  by (cases data) (simp_all add: statistics_mean_def Let_def)

lemma statistics_median_returns: "data \<noteq> [] \<Longrightarrow> \<exists>v. statistics_median data = Inr v"
  by (cases data) (simp_all add: statistics_median_def Let_def)

lemma mode_or_marker_returns: "\<exists>v. mode_or_marker (statistics_mode data) = Inr v"
  by (simp add: mode_or_marker_def statistics_mode_def split: list.splits sum.splits pyexn.splits)

lemma counter_add_not_empty: "counter_add x items \<noteq> []"
  by (cases items) auto

lemma Counter_not_empty: "data \<noteq> [] \<Longrightarrow> Counter data \<noteq> []"
  by (cases data rule: rev_cases) (simp_all add: Counter_def counter_add_not_empty)

lemma statistics_mode_returns: "data \<noteq> [] \<Longrightarrow> \<exists>m. statistics_mode data = Inr m"
  using Counter_not_empty [of data]
  by (auto simp: statistics_mode_def most_common_1_def split: list.splits)

lemma marker_never_printed:
  "data \<noteq> [] \<Longrightarrow> \<exists>m. mode_or_marker (statistics_mode data) = Inr (PyInt m)"
  using statistics_mode_returns [of data] by (auto simp: mode_or_marker_def)

subsection \<open>A strictly most frequent count\<close>

text \<open>
  A count that occurs strictly more often than every other count is the value that
  \<open>statistics.mode\<close> returns.
\<close>

lemma counter_add_map_of:
  "map_of (counter_add x items) =
     (map_of items)(x \<mapsto> (case map_of items x of None \<Rightarrow> 1 | Some c \<Rightarrow> c + 1))"
  by (induction items) (auto simp: fun_upd_twist)

lemma counter_add_keys:
  "set (map fst (counter_add x items)) = insert x (set (map fst items))"
  by (induction items) auto

lemma counter_add_distinct:
  "distinct (map fst items) \<Longrightarrow> distinct (map fst (counter_add x items))"
proof (induction items)
  case Nil
  show ?case by simp
next
  case (Cons kc kcs)
  show ?case
  proof (cases "fst kc = x")
    case True
    with Cons.prems show ?thesis by simp
  next
    case False
    with Cons show ?thesis using counter_add_keys [of x kcs] by auto
  qed
qed

lemma Counter_snoc: "Counter (data @ [x]) = counter_add x (Counter data)"
  by (simp add: Counter_def)

lemma Counter_counts:
  "distinct (map fst (Counter data)) \<and>
   map_of (Counter data) = (\<lambda>k. if k \<in> set data then Some (count_list data k) else None)"
proof (induction data rule: rev_induct)
  case Nil
  show ?case by (simp add: Counter_def)
next
  case (snoc x data)
  then have d: "distinct (map fst (Counter data))"
    and m: "map_of (Counter data) = (\<lambda>k. if k \<in> set data then Some (count_list data k) else None)"
    by simp_all
  have "map_of (Counter (data @ [x])) k =
      (if k \<in> set (data @ [x]) then Some (count_list (data @ [x]) k) else None)" for k
    by (auto simp: Counter_snoc counter_add_map_of m count_list_0_iff)
  then show ?case using d by (auto simp: Counter_snoc counter_add_distinct)
qed

lemma max_by_count_greatest:
  "max_by_count best items \<in> set (best # items) \<and>
   (\<forall>kc\<in>set (best # items). snd kc \<le> snd (max_by_count best items))"
proof (induction items arbitrary: best)
  case Nil
  show ?case by simp
next
  case (Cons kc kcs)
  show ?case
  proof (cases "snd best < snd kc")
    case True
    with Cons [of kc] show ?thesis by auto
  next
    case False
    with Cons [of best] show ?thesis by auto
  qed
qed

lemma strict_mode_reported:
  assumes "v \<in> set data"
    and "\<forall>y\<in>set data. y \<noteq> v \<longrightarrow> count_list data y < count_list data v"
  shows "statistics_mode data = Inr v"
proof -
  from assms(1) have "data \<noteq> []" by auto
  then obtain kc kcs where C: "Counter data = kc # kcs"
    using Counter_not_empty [of data] by (cases "Counter data") auto
  define r where "r = max_by_count kc kcs"
  have sm: "statistics_mode data = Inr (fst r)"
    by (simp add: statistics_mode_def most_common_1_def C r_def)
  from Counter_counts [of data] have d: "distinct (map fst (Counter data))"
    and m: "map_of (Counter data) = (\<lambda>k. if k \<in> set data then Some (count_list data k) else None)"
    by simp_all
  from max_by_count_greatest [of kc kcs] have rin: "r \<in> set (Counter data)"
    and rmax: "\<forall>x\<in>set (Counter data). snd x \<le> snd r"
    by (simp_all add: C r_def)
  from rin have "(fst r, snd r) \<in> set (Counter data)" by simp
  with d have "map_of (Counter data) (fst r) = Some (snd r)" by (rule map_of_is_SomeI)
  then have r: "fst r \<in> set data" "snd r = count_list data (fst r)"
    by (auto simp: m split: if_splits)
  from assms(1) have "map_of (Counter data) v = Some (count_list data v)" by (simp add: m)
  then have "(v, count_list data v) \<in> set (Counter data)" by (rule map_of_SomeD)
  with rmax have "count_list data v \<le> snd r" by fastforce
  with r assms(2) have "fst r = v" by fastforce
  with sm show ?thesis by simp
qed

subsection \<open>Rounding\<close>

lemma round_half_even_error: "\<bar>of_int (round_half_even y) - y\<bar> \<le> 1 / 2"
proof -
  have "of_int \<lfloor>y\<rfloor> \<le> y" "y < of_int \<lfloor>y\<rfloor> + 1" by linarith+
  then show ?thesis by (auto simp: round_half_even_def Let_def)
qed

lemma round_half_even_of_int: "round_half_even (of_int k) = k"
  by (simp add: round_half_even_def)

lemma binary_exponent_bounds:
  assumes "0 < x"
  shows "2 powi (binary_exponent x) \<le> x" and "x < 2 powi (binary_exponent x + 1)"
proof -
  obtain a b where q: "quotient_of x = (a, b)" by (cases "quotient_of x")
  then have x: "x = of_int a / of_int b" by (rule quotient_of_div)
  from q have b: "0 < b" by (rule quotient_of_denom_pos)
  with assms x have a: "0 < a" by (simp add: zero_less_divide_iff)
  define la lb where "la = bitlen a" and "lb = bitlen b"
  have bounds: "2 ^ nat (la - 1) \<le> a" "a < 2 ^ nat la" "2 ^ nat (lb - 1) \<le> b" "b < 2 ^ nat lb"
    using bitlen_bounds [OF a] bitlen_bounds [OF b] by (simp_all add: la_def lb_def)
  have la: "0 < la"
  proof (rule ccontr)
    assume "\<not> 0 < la"
    then have "nat la = 0" by simp
    with bounds(2) a show False by simp
  qed
  have lb: "0 < lb"
  proof (rule ccontr)
    assume "\<not> 0 < lb"
    then have "nat lb = 0" by simp
    with bounds(4) b show False by simp
  qed
  note bounds
  then have ra: "(2::rat) ^ nat (la - 1) \<le> of_int a" "of_int a < (2::rat) ^ nat la"
    and rb: "(2::rat) ^ nat (lb - 1) \<le> of_int b" "of_int b < (2::rat) ^ nat lb"
    by (metis of_int_le_iff of_int_numeral of_int_power, metis of_int_less_iff of_int_numeral of_int_power,
        metis of_int_le_iff of_int_numeral of_int_power, metis of_int_less_iff of_int_numeral of_int_power)
  have pa: "(2::rat) powi (la - 1) \<le> of_int a" "of_int a < (2::rat) powi la"
    and pb: "(2::rat) powi (lb - 1) \<le> of_int b" "of_int b < (2::rat) powi lb"
    using ra rb la lb by (simp_all add: power_int_def)
  have bpos: "(0::rat) < of_int b" using b by simp
  have up: "x < 2 powi (la - lb + 1)"
  proof -
    have "of_int a < (2::rat) powi la" by (rule pa)
    also have "\<dots> = 2 powi (la - lb + 1) * 2 powi (lb - 1)"
      by (simp add: power_int_add [symmetric])
    also have "\<dots> \<le> 2 powi (la - lb + 1) * of_int b"
      using pb(1) by (simp add: mult_left_mono)
    finally show ?thesis using bpos by (simp add: x pos_divide_less_eq)
  qed
  have lo: "2 powi (la - lb - 1) \<le> x"
  proof -
    have "(2::rat) powi (la - lb - 1) * of_int b \<le> 2 powi (la - lb - 1) * 2 powi lb"
      using pb(2) by (simp add: mult_left_mono)
    also have "\<dots> = 2 powi (la - 1)" by (simp add: power_int_add [symmetric])
    also have "\<dots> \<le> of_int a" by (rule pa)
    finally show ?thesis using bpos by (simp add: x pos_le_divide_eq)
  qed
  have e: "binary_exponent x = (if 2 powi (la - lb) \<le> x then la - lb else la - lb - 1)"
    by (simp add: binary_exponent_def q la_def lb_def)
  show "2 powi (binary_exponent x) \<le> x" using lo by (simp add: e)
  show "x < 2 powi (binary_exponent x + 1)" using up by (auto simp: e)
qed

lemma to_double_pos:
  "0 < x \<Longrightarrow> to_double x =
     of_int (round_half_even (x / 2 powi (binary_exponent x - 52))) * 2 powi (binary_exponent x - 52)"
  by (simp add: to_double_def Let_def)

lemma to_double_error:
  assumes "0 < x"
  shows "\<bar>to_double x - x\<bar> \<le> x / 2 ^ 53"
proof -
  define u :: rat where "u = 2 powi (binary_exponent x - 52)"
  have u: "0 < u" by (simp add: u_def)
  have "u = 2 powi (binary_exponent x) / 2 ^ 52"
    by (simp add: u_def power_int_diff)
  also have "\<dots> \<le> x / 2 ^ 52"
    using binary_exponent_bounds(1) [OF assms] by (simp add: divide_right_mono)
  finally have ux: "u \<le> x / 2 ^ 52" .
  have "to_double x - x = (of_int (round_half_even (x / u)) - x / u) * u"
    using u by (simp add: to_double_pos [OF assms] u_def [symmetric] algebra_simps)
  then have "\<bar>to_double x - x\<bar> = \<bar>of_int (round_half_even (x / u)) - x / u\<bar> * u"
    using u by (simp add: abs_mult)
  also have "\<dots> \<le> 1 / 2 * u"
    using round_half_even_error [of "x / u"] u by (simp add: mult_right_mono)
  also have "\<dots> \<le> 1 / 2 * (x / 2 ^ 52)" using ux by simp
  finally show ?thesis by simp
qed

lemma to_double_exact:
  assumes "0 < x" and "x / 2 powi (binary_exponent x - 52) = of_int k"
  shows "to_double x = x"
proof -
  have "(2::rat) powi (binary_exponent x - 52) \<noteq> 0" by simp
  then have "x = of_int k * 2 powi (binary_exponent x - 52)"
    using assms(2) by (simp add: divide_eq_eq)
  then show ?thesis
    by (simp add: to_double_pos [OF assms(1)] assms(2) round_half_even_of_int)
qed

lemma binary_exponent_less:
  assumes "0 < x" and "x < 2 ^ n"
  shows "binary_exponent x < int n"
proof (rule ccontr)
  assume "\<not> binary_exponent x < int n"
  then have "int n \<le> binary_exponent x" by simp
  then have "(2::rat) powi int n \<le> 2 powi binary_exponent x"
    by (intro power_int_increasing) simp_all
  also have "\<dots> \<le> x" by (rule binary_exponent_bounds(1) [OF assms(1)])
  finally show False using assms(2) by simp
qed

lemma to_double_scaled:
  assumes "0 < x" and "binary_exponent x \<le> 52"
    and "x * 2 ^ nat (52 - binary_exponent x) = of_int k"
  shows "to_double x = x"
proof (rule to_double_exact [OF assms(1)])
  have "(52 - binary_exponent x) = int (nat (52 - binary_exponent x))" using assms(2) by simp
  then have "(2::rat) powi (52 - binary_exponent x) = 2 ^ nat (52 - binary_exponent x)"
    by (metis power_int_of_nat)
  moreover have "x / 2 powi (binary_exponent x - 52) = x * 2 powi (52 - binary_exponent x)"
    by (simp add: power_int_diff)
  ultimately show "x / 2 powi (binary_exponent x - 52) = of_int k" using assms(3) by simp
qed

lemma to_double_int:
  assumes "0 < k" and "k < 2 ^ 53"
  shows "to_double (of_int k) = of_int k"
proof -
  have p: "(0::rat) < of_int k" using assms(1) by simp
  have "(of_int k :: rat) < 2 ^ 53" using assms(2) by (metis of_int_less_iff of_int_numeral of_int_power)
  from binary_exponent_less [OF p this] have e: "binary_exponent (of_int k) \<le> 52" by simp
  show ?thesis
    by (rule to_double_scaled [OF p e, of "k * 2 ^ nat (52 - binary_exponent (of_int k))"]) simp
qed

lemma to_double_half:
  assumes "0 \<le> s" and "s \<le> 2 ^ 53"
  shows "to_double (of_int s / 2) = of_int s / 2"
proof (cases "s = 0")
  case True
  then show ?thesis by (simp add: to_double_def)
next
  case False
  with assms(1) have s: "0 < s" by simp
  show ?thesis
  proof (cases "even s")
    case True
    then obtain k where k: "s = 2 * k" by (auto elim: evenE)
    with s assms(2) have "0 < k" "k < 2 ^ 53" by simp_all
    from to_double_int [OF this] show ?thesis by (simp add: k)
  next
    case False
    with assms(2) have "s \<noteq> 2 ^ 53" by auto
    with assms(2) have lt: "s < 2 ^ 53" by simp
    have p: "(0::rat) < of_int s / 2" using s by simp
    have "(of_int s :: rat) < 2 ^ 53" using lt by (metis of_int_less_iff of_int_numeral of_int_power)
    then have "(of_int s :: rat) / 2 < 2 ^ 52" by simp
    from binary_exponent_less [OF p this] have e: "binary_exponent (of_int s / 2) \<le> 51" by simp
    define j where "j = nat (51 - binary_exponent (of_int s / 2))"
    have "nat (52 - binary_exponent (of_int s / 2)) = Suc j" using e by (simp add: j_def)
    then have "of_int s / 2 * 2 ^ nat (52 - binary_exponent (of_int s / 2)) = (of_int (s * 2 ^ j) :: rat)"
      by simp
    from to_double_scaled [OF p _ this] e show ?thesis by simp
  qed
qed

lemma two_decimals_accurate:
  fixes T n :: int and f :: rat
  assumes "0 < n" and "0 \<le> T" and "200 * T < 2 ^ 53"
    and "\<bar>f - of_int T / of_int n\<bar> \<le> (of_int T / of_int n) / 2 ^ 53"
  shows "\<bar>of_int (round_half_even (f * 100)) / 100 - of_int T / of_int n\<bar> \<le> (1 / 200 :: rat)"
proof -
  define D :: rat where "D = of_int (round_half_even (f * 100))"
  define N :: rat where "N = of_int n"
  define Tr :: rat where "Tr = of_int T"
  define q :: rat where "q = Tr / N"
  define K :: rat where "K = 2 ^ 53"
  define Z :: int where "Z = round_half_even (f * 100) * n - T * 100"
  define E :: rat where "E = D - q * 100"
  have Np: "0 < N" using assms(1) by (simp add: N_def)
  have Kp: "0 < K" by (simp add: K_def)
  have qN: "q * N = Tr" using Np by (simp add: q_def)
  have 1: "\<bar>D - f * 100\<bar> \<le> 1 / 2" unfolding D_def by (rule round_half_even_error)
  have a4: "\<bar>f - q\<bar> \<le> q / K" using assms(4) by (simp only: q_def Tr_def N_def K_def)
  have "f * 100 - q * 100 = (f - q) * 100" by (simp only: left_diff_distrib)
  then have "\<bar>f * 100 - q * 100\<bar> = \<bar>f - q\<bar> * \<bar>100\<bar>" by (simp only: abs_mult)
  also have "\<dots> = \<bar>f - q\<bar> * 100" by simp
  also have "\<dots> \<le> q / K * 100" using a4 by (rule mult_right_mono) simp
  finally have 2: "\<bar>f * 100 - q * 100\<bar> \<le> q / K * 100" .
  have 3: "\<bar>E\<bar> \<le> 1 / 2 + q / K * 100" unfolding E_def using 1 2 by linarith
  have "200 * Tr < K"
    unfolding Tr_def K_def using assms(3)
    by (metis of_int_less_iff of_int_mult of_int_numeral of_int_power)
  then have "Tr * 100 < K * (1 / 2)" by simp
  then have 5: "Tr * 100 / K < 1 / 2" using Kp by (simp only: pos_divide_less_eq mult.commute)
  have "\<bar>E\<bar> * N \<le> (1 / 2 + q / K * 100) * N"
    using 3 Np by (intro mult_right_mono) simp_all
  also have "(1 / 2 + q / K * 100) * N = N / 2 + (q * N) * 100 / K"
    by (simp add: algebra_simps)
  also have "\<dots> = N / 2 + Tr * 100 / K" by (simp only: qN)
  also have "\<dots> < N / 2 + 1 / 2" using 5 by simp
  finally have 6: "\<bar>E\<bar> * N < (N + 1) / 2" by (simp add: add_divide_distrib)
  have "E * N = D * N - (q * N) * 100" by (simp add: E_def algebra_simps)
  also have "\<dots> = D * N - Tr * 100" by (simp only: qN)
  also have "\<dots> = of_int Z" by (simp add: D_def N_def Tr_def Z_def)
  finally have EN: "E * N = of_int Z" .
  have "\<bar>E\<bar> * N = \<bar>E * N\<bar>" using Np by (simp add: abs_mult)
  then have aEN: "\<bar>E\<bar> * N = of_int \<bar>Z\<bar>" by (simp add: EN)
  from 6 have "(of_int \<bar>Z\<bar> :: rat) * 2 < N + 1" by (simp add: aEN)
  then have "(of_int (\<bar>Z\<bar> * 2) :: rat) < of_int (n + 1)" by (simp add: N_def)
  then have "\<bar>Z\<bar> * 2 < n + 1" by (simp only: of_int_less_iff)
  then have "\<bar>Z\<bar> * 2 \<le> n" by simp
  then have "(of_int (\<bar>Z\<bar> * 2) :: rat) \<le> of_int n" by (simp only: of_int_le_iff)
  then have "(of_int \<bar>Z\<bar> :: rat) * 2 \<le> N" by (simp add: N_def)
  then have "\<bar>E\<bar> * N * 2 \<le> N" by (simp only: aEN)
  then have "\<bar>E\<bar> * 2 * N \<le> 1 * N" by (simp only: mult.assoc mult.commute [of N 2] mult_1)
  then have "\<bar>E\<bar> * 2 \<le> 1" using Np by (simp only: mult_le_cancel_right_pos)
  then have 7: "\<bar>E\<bar> \<le> 1 / 2" by simp
  have "D / 100 - q = E / 100" by (simp add: E_def diff_divide_distrib)
  then have "\<bar>D / 100 - q\<bar> = \<bar>E / 100\<bar>" by (simp only:)
  also have "\<dots> = \<bar>E\<bar> / 100" by (simp add: abs_divide)
  finally have "\<bar>D / 100 - q\<bar> = \<bar>E\<bar> / 100" .
  with 7 have "\<bar>D / 100 - q\<bar> \<le> 1 / 200" by linarith
  then show ?thesis by (simp only: D_def q_def Tr_def N_def)
qed

subsection \<open>Printing\<close>

lemma py_print_ok: "py_print fs line = None \<longleftrightarrow> list_all (piece_encodable fs) line"
  by (simp add: py_print_def)

lemma py_print_error: "py_print fs line = Some e \<Longrightarrow> e = encode_error"
  by (simp add: py_print_def split: if_splits)

lemma print_lines_closed:
  "print_lines fs out ls =
     (out @ takeWhile (\<lambda>l. py_print fs l = None) ls,
      if \<forall>l\<in>set ls. py_print fs l = None then None else Some encode_error)"
proof (induction ls arbitrary: out)
  case Nil
  show ?case by simp
next
  case (Cons l ls)
  show ?case
  proof (cases "py_print fs l")
    case None
    with Cons [of "out @ [l]"] show ?thesis by simp
  next
    case (Some e)
    with py_print_error [OF Some] show ?thesis by simp
  qed
qed

lemma print_lines_all:
  "\<forall>l\<in>set ls. py_print fs l = None \<Longrightarrow> print_lines fs out ls = (out @ ls, None)"
  by (simp add: print_lines_closed)


lemma print_literal: "py_print fs [Lit s] = None"
  by (simp add: py_print_def)

lemma print_error_line:
  "py_print fs (error_line p e) = None \<longleftrightarrow> printable fs p \<and> printable fs (exn_text e)"
  by (simp add: py_print_def error_line_def)

lemma print_per_file_line: "py_print fs (per_file_line n c) = None \<longleftrightarrow> printable fs n"
  by (simp add: py_print_def per_file_line_def)

lemma print_per_file_lines:
  "(\<forall>l\<in>set (per_file_lines fm). py_print fs l = None) \<longleftrightarrow> (\<forall>kv\<in>set fm. printable fs (fst kv))"
  by (auto simp: per_file_lines_def print_per_file_line split: prod.splits)

lemma statistics_mean_number: "statistics_mean data = Inr v \<Longrightarrow> piece_encodable fs (Fmt v)"
  by (auto simp: statistics_mean_def Let_def split: if_splits)

lemma statistics_median_number: "statistics_median data = Inr v \<Longrightarrow> piece_encodable fs (Fmt v)"
  by (auto simp: statistics_median_def Let_def split: if_splits)

lemma print_summary_lines:
  "piece_encodable fs (Fmt b) \<Longrightarrow> \<forall>l\<in>set (summary_lines t a b (PyInt m)). py_print fs l = None"
  by (simp add: summary_lines_def py_print_def)

subsection \<open>\<open>count_words_in_file\<close>\<close>

lemma count_words_readable:
  "fs_read_text fs p = Inr txt \<Longrightarrow>
     count_words_in_file fs p = ([], Inr (int (length (str_split txt))))"
  by (simp add: count_words_in_file_def)

lemma count_words_unreadable:
  "fs_read_text fs p = Inl e \<Longrightarrow>
     count_words_in_file fs p =
       (if printable fs p \<and> printable fs (exn_text e) then ([error_line p e], Inr 0)
        else ([], Inl encode_error))"
  using print_error_line [of fs p e]
  by (auto simp: count_words_in_file_def dest: py_print_error split: option.splits)

lemma count_words_raises:
  "snd (count_words_in_file fs p) = Inl x \<Longrightarrow>
     count_words_in_file fs p = ([], Inl encode_error)"
  by (auto simp: count_words_in_file_def dest: py_print_error split: sum.splits option.splits)

lemma count_words_returns:
  "snd (count_words_in_file fs p) = Inr k \<Longrightarrow> counted fs p = k"
  by (simp add: counted_def)


subsection \<open>The loop\<close>

lemma passed_Cons:
  "passed fs d (n # names) = (if stops fs d n then [] else n # passed fs d names)"
  by (simp add: passed_def)

lemma loop_closed:
  "loop fs d (wc, fm, out) names =
     ((wc @ counts_of fs d (regular_entries fs d (passed fs d names)),
       foldl (\<lambda>m n. dict_set m n (counted fs (os_path_join d n))) fm
         (regular_entries fs d (passed fs d names)),
       out @ messages_of fs d (regular_entries fs d (passed fs d names))),
      if passed fs d names = names then None else Some encode_error)"
proof (induction names arbitrary: wc fm out)
  case Nil
  show ?case by (simp add: passed_def regular_entries_def counts_of_def messages_of_def)
next
  case (Cons n names)
  show ?case
  proof (cases "os_path_isfile fs (os_path_join d n)")
    case False
    then have b: "loop_body fs d (wc, fm, out) n = ((wc, fm, out), None)"
      by (simp add: loop_body_def)
    from False have s: "\<not> stops fs d n" by (simp add: stops_def)
    from False have r: "regular_entries fs d (n # xs) = regular_entries fs d xs" for xs
      by (simp add: regular_entries_def)
    show ?thesis by (simp add: b Cons passed_Cons s r)
  next
    case True
    then have r: "regular_entries fs d (n # xs) = n # regular_entries fs d xs" for xs
      by (simp add: regular_entries_def)
    obtain msgs res where c: "count_words_in_file fs (os_path_join d n) = (msgs, res)"
      by (cases "count_words_in_file fs (os_path_join d n)")
    show ?thesis
    proof (cases res)
      case (Inr k)
      then have b: "loop_body fs d (wc, fm, out) n =
          ((wc @ [k], dict_set fm n k, out @ msgs), None)"
        using True c by (simp add: loop_body_def)
      have s: "\<not> stops fs d n" using c Inr by (simp add: stops_def)
      have k: "counted fs (os_path_join d n) = k" using c Inr by (simp add: counted_def)
      show ?thesis
        by (simp add: b Cons passed_Cons s r counts_of_def messages_of_def k c)
    next
      case (Inl e)
      with c have "snd (count_words_in_file fs (os_path_join d n)) = Inl e" by simp
      from count_words_raises [OF this] c Inl have m: "msgs = []" "e = encode_error" by simp_all
      have b: "loop_body fs d (wc, fm, out) n = ((wc, fm, out), Some encode_error)"
        using True c Inl m by (simp add: loop_body_def)
      have s: "stops fs d n" using True c Inl by (simp add: stops_def)
      show ?thesis
        by (simp add: b passed_Cons s regular_entries_def counts_of_def messages_of_def)
    qed
  qed
qed

lemma loop_from_start:
  "loop fs d ([], [], []) names =
     ((counts_of fs d (regular_entries fs d (passed fs d names)),
       word_map_of fs d (regular_entries fs d (passed fs d names)),
       messages_of fs d (regular_entries fs d (passed fs d names))),
      if passed fs d names = names then None else Some encode_error)"
  by (simp add: loop_closed word_map_of_def)

lemma word_map_entries:
  "set (word_map_of fs d entries) = (\<lambda>n. (n, counted fs (os_path_join d n))) ` set entries"
  using fold_dict_set_set [of "[]" "\<lambda>n. counted fs (os_path_join d n)" entries]
  by (simp add: word_map_of_def)

lemma word_map_distinct:
  "distinct entries \<Longrightarrow>
     word_map_of fs d entries = map (\<lambda>n. (n, counted fs (os_path_join d n))) entries"
  using fold_dict_set_fresh [of entries "[]" "\<lambda>n. counted fs (os_path_join d n)"]
  by (simp add: word_map_of_def)

lemma passed_all: "(\<forall>n\<in>set names. \<not> stops fs d n) \<Longrightarrow> passed fs d names = names"
  by (simp add: passed_def)

lemma shown_never_stops:
  assumes "stdout_shows fs d names"
  shows "passed fs d names = names"
proof (rule passed_all, rule ballI)
  fix n assume n: "n \<in> set names"
  show "\<not> stops fs d n"
  proof
    assume s: "stops fs d n"
    then have r: "n \<in> set (regular_entries fs d names)"
      using n by (simp add: stops_def regular_entries_def)
    from s obtain x where x: "snd (count_words_in_file fs (os_path_join d n)) = Inl x"
      by (auto simp: stops_def split: sum.splits)
    show False
    proof (cases "fs_read_text fs (os_path_join d n)")
      case (Inr t)
      from count_words_readable [OF this] x show False by simp
    next
      case (Inl e)
      with assms r have "printable fs (os_path_join d n) \<and> printable fs (exn_text e)"
        by (simp add: stdout_shows_def)
      with count_words_unreadable [OF Inl] x show False by simp
    qed
  qed
qed

subsection \<open>The report\<close>

lemma per_file_lines_iff:
  "per_file_line n c \<in> set (per_file_lines fm) \<longleftrightarrow> (n, c) \<in> set fm"
  by (auto simp: per_file_lines_def per_file_line_def image_iff split: prod.splits)


lemma report_empty:
  "report fs ([], fm, out) = (out @ [[Lit ''No readable files found.'']], None)"
  by (simp add: report_def print_literal)

lemma report_statistics:
  assumes "wc \<noteq> []"
  shows "\<exists>a b m. statistics_mean wc = Inr a \<and> statistics_median wc = Inr b \<and>
           statistics_mode wc = Inr m \<and>
           report fs (wc, fm, out) =
             print_lines fs out
               ([[Lit (CHR 0x0A # ''Word count per file:'')]] @ per_file_lines fm
                @ summary_lines (sum_list wc) a b (PyInt m))"
proof -
  from statistics_mean_returns [OF assms] obtain a where a: "statistics_mean wc = Inr a" ..
  from statistics_median_returns [OF assms] obtain b where b: "statistics_median wc = Inr b" ..
  from statistics_mode_returns [OF assms] obtain m where m: "statistics_mode wc = Inr m" ..
  have "report fs (wc, fm, out) =
      print_lines fs out
        ([[Lit (CHR 0x0A # ''Word count per file:'')]] @ per_file_lines fm
         @ summary_lines (sum_list wc) a b (PyInt m))"
    using assms by (simp add: report_def a b m mode_or_marker_def)
  with a b m show ?thesis by blast
qed

lemma report_shown:
  assumes "wc \<noteq> []" and "\<forall>kv\<in>set fm. printable fs (fst kv)"
    and "statistics_mean wc = Inr a" and "statistics_median wc = Inr b"
    and "statistics_mode wc = Inr m"
  shows "report fs (wc, fm, out) =
           (out @ [[Lit (CHR 0x0A # ''Word count per file:'')]] @ per_file_lines fm
            @ summary_lines (sum_list wc) a b (PyInt m), None)"
proof -
  have r: "report fs (wc, fm, out) =
      print_lines fs out
        ([[Lit (CHR 0x0A # ''Word count per file:'')]] @ per_file_lines fm
         @ summary_lines (sum_list wc) a b (PyInt m))"
    using assms(1) by (simp add: report_def assms(3-5) mode_or_marker_def)
  have 1: "\<forall>l\<in>set (per_file_lines fm). py_print fs l = None"
    using assms(2) by (simp add: print_per_file_lines)
  have 2: "\<forall>l\<in>set (summary_lines (sum_list wc) a b (PyInt m)). py_print fs l = None"
    by (rule print_summary_lines) (rule statistics_median_number [OF assms(4)])
  have "\<forall>l\<in>set ([[Lit (CHR 0x0A # ''Word count per file:'')]] @ per_file_lines fm
         @ summary_lines (sum_list wc) a b (PyInt m)). py_print fs l = None"
    using 1 2 by (auto simp: print_literal)
  from print_lines_all [OF this] show ?thesis by (simp add: r)
qed

subsection \<open>The whole function\<close>

lemma analyze_unlisted:
  "fs_listdir fs d = Inl e \<Longrightarrow> analyze_directory_word_counts fs d = ([], Some e)"
  by (simp add: analyze_directory_word_counts_def)


lemma analyze_passed:
  assumes "fs_listdir fs d = Inr names" and "passed fs d names = names"
  shows "analyze_directory_word_counts fs d =
           report fs (counts_of fs d (regular_entries fs d names),
                      word_map_of fs d (regular_entries fs d names),
                      messages_of fs d (regular_entries fs d names))"
  using assms by (simp add: analyze_directory_word_counts_def loop_from_start)

lemma messages_none: "messages_of fs d [] = []"
  by (simp add: messages_of_def)

lemma counts_none: "counts_of fs d entries = [] \<longleftrightarrow> entries = []"
  by (simp add: counts_of_def)

lemma analyze_no_regular:
  assumes "fs_listdir fs d = Inr names" and "regular_entries fs d names = []"
  shows "analyze_directory_word_counts fs d = ([[Lit ''No readable files found.'']], None)"
proof -
  have "\<forall>n\<in>set names. \<not> stops fs d n"
    using assms(2) by (auto simp: stops_def regular_entries_def filter_empty_conv)
  then have "passed fs d names = names" by (rule passed_all)
  from analyze_passed [OF assms(1) this] show ?thesis
    by (simp add: assms(2) counts_of_def word_map_of_def messages_none report_empty)
qed

lemma analyze_shown:
  assumes "fs_listdir fs d = Inr names" and "stdout_shows fs d names"
    and "regular_entries fs d names \<noteq> []"
  shows "\<exists>a b m.
           statistics_mean (counts_of fs d (regular_entries fs d names)) = Inr a \<and>
           statistics_median (counts_of fs d (regular_entries fs d names)) = Inr b \<and>
           statistics_mode (counts_of fs d (regular_entries fs d names)) = Inr m \<and>
           analyze_directory_word_counts fs d =
             (messages_of fs d (regular_entries fs d names)
              @ [[Lit (CHR 0x0A # ''Word count per file:'')]]
              @ per_file_lines (word_map_of fs d (regular_entries fs d names))
              @ summary_lines (sum_list (counts_of fs d (regular_entries fs d names))) a b
                  (PyInt m), None)"
proof -
  let ?fl = "regular_entries fs d names"
  have ne: "counts_of fs d ?fl \<noteq> []" using assms(3) by (simp add: counts_none)
  from report_statistics [OF ne] obtain a b m where
    s: "statistics_mean (counts_of fs d ?fl) = Inr a"
       "statistics_median (counts_of fs d ?fl) = Inr b"
       "statistics_mode (counts_of fs d ?fl) = Inr m"
    by blast
  have k: "\<forall>kv\<in>set (word_map_of fs d ?fl). printable fs (fst kv)"
    using assms(2) by (auto simp: word_map_entries stdout_shows_def)
  have "analyze_directory_word_counts fs d =
      report fs (counts_of fs d ?fl, word_map_of fs d ?fl, messages_of fs d ?fl)"
    by (rule analyze_passed [OF assms(1) shown_never_stops [OF assms(2)]])
  with report_shown [OF ne k s] s show ?thesis by auto
qed

lemma passed_subset: "set (regular_entries fs d (passed fs d names)) \<subseteq> set (regular_entries fs d names)"
  by (auto simp: regular_entries_def passed_def dest: set_takeWhileD)


subsection \<open>The example, evaluated\<close>

lemmas ex_defs = example_fs_def mk_fs_def lit_def enoent_def

lemma ex_read_a: "fs_read_text example_fs (lit ''d/a.txt'') = Inr (lit ''one two three'')"
  by (simp add: ex_defs)

lemma ex_read_c: "fs_read_text example_fs (lit ''m/c'') = Inr (lit ''  '')"
  by (simp add: ex_defs)

lemma ex_runs_a: "maximal_runs (lit ''one two three'') = 3"
  by (simp add: maximal_runs_def isspace_def upt_rec lit_def)

lemma ex_blank: "\<forall>c\<in>set (lit ''  ''). isspace c"
  by (simp add: isspace_def lit_def)

lemma ex_listdir_d: "fs_listdir example_fs (lit ''d'') = Inr [lit ''a.txt'', lit ''b.txt'']"
  by (simp add: ex_defs)

lemma ex_listdir_m: "fs_listdir example_fs (lit ''m'') =
    Inr [lit ''sub'', lit ''tty'', lit ''link'', lit ''gone'', lit ''bad'', lit ''c'']"
  by (simp add: ex_defs)

lemma ex_listdir_e: "fs_listdir example_fs (lit ''e'') = Inr [lit ''sub'']"
  by (simp add: ex_defs)

lemma ex_listdir_nowhere: "fs_listdir example_fs (lit ''nowhere'') = Inl enoent"
  by (simp add: example_fs_def mk_fs_def lit_def)

lemma ex_listdir_u: "fs_listdir example_fs (lit ''u'') = Inr [[120, 56448]]"
  by (simp add: ex_defs)

lemma ex_join:
  "os_path_join (lit ''d'') (lit ''a.txt'') = lit ''d/a.txt''"
  "os_path_join (lit ''d'') (lit ''b.txt'') = lit ''d/b.txt''"
  "os_path_join (lit ''m'') (lit ''sub'') = lit ''m/sub''"
  "os_path_join (lit ''m'') (lit ''tty'') = lit ''m/tty''"
  "os_path_join (lit ''m'') (lit ''link'') = lit ''m/link''"
  "os_path_join (lit ''m'') (lit ''gone'') = lit ''m/gone''"
  "os_path_join (lit ''m'') (lit ''bad'') = lit ''m/bad''"
  "os_path_join (lit ''m'') (lit ''c'') = lit ''m/c''"
  "os_path_join (lit ''e'') (lit ''sub'') = lit ''e/sub''"
  "os_path_join (lit ''u'') [120, 56448] = lit ''u/'' @ [120, 56448]"
  by (simp_all add: os_path_join_def lit_def)

lemma follow_numeral:
  "follow (numeral k) fs p =
     (case fs_lstat fs p of
        Inl e \<Rightarrow> Inl e
      | Inr (S_IFLNK target) \<Rightarrow> follow (pred_numeral k) fs target
      | Inr t \<Rightarrow> Inr t)"
  by (simp add: numeral_eq_Suc)

lemmas isfile_defs = os_path_isfile_def os_stat_def follow_numeral

lemma ex_isfile:
  "os_path_isfile example_fs (lit ''d/a.txt'')"
  "os_path_isfile example_fs (lit ''d/b.txt'')"
  "\<not> os_path_isfile example_fs (lit ''m/sub'')"
  "\<not> os_path_isfile example_fs (lit ''m/tty'')"
  "os_path_isfile example_fs (lit ''m/link'')"
  "\<not> os_path_isfile example_fs (lit ''m/gone'')"
  "os_path_isfile example_fs (lit ''m/bad'')"
  "os_path_isfile example_fs (lit ''m/c'')"
  "\<not> os_path_isfile example_fs (lit ''e/sub'')"
  "os_path_isfile example_fs (lit ''u/'' @ [120, 56448])"
  by (simp_all add: isfile_defs ex_defs)

lemma ex_read_bad:
  "fs_read_text example_fs (lit ''m/bad'') = Inl (UnicodeDecodeError (lit ''invalid start byte''))"
  by (simp add: ex_defs)

lemma ex_read_u:
  "fs_read_text example_fs (lit ''u/'' @ [120, 56448])
     = Inl (UnicodeDecodeError (lit ''invalid start byte''))"
  by (simp add: ex_defs)

lemma ex_printable:
  "printable example_fs (lit ''a.txt'')"
  "printable example_fs (lit ''b.txt'')"
  "printable example_fs (lit ''link'')"
  "printable example_fs (lit ''bad'')"
  "printable example_fs (lit ''c'')"
  "printable example_fs (lit ''m/bad'')"
  "printable example_fs (lit ''invalid start byte'')"
  "\<not> printable example_fs (lit ''u/'' @ [120, 56448])"
  by (simp_all add: printable_def ex_defs)

lemma ex_count:
  "count_words_in_file example_fs (lit ''d/a.txt'') = ([], Inr 3)"
  "count_words_in_file example_fs (lit ''d/b.txt'') = ([], Inr 2)"
  "count_words_in_file example_fs (lit ''m/link'') = ([], Inr 3)"
  "count_words_in_file example_fs (lit ''m/bad'') =
     ([error_line (lit ''m/bad'') (UnicodeDecodeError (lit ''invalid start byte''))], Inr 0)"
  "count_words_in_file example_fs (lit ''m/c'') = ([], Inr 0)"
  "count_words_in_file example_fs (lit ''u/'' @ [120, 56448]) = ([], Inl encode_error)"
proof -
  show "count_words_in_file example_fs (lit ''m/bad'') =
     ([error_line (lit ''m/bad'') (UnicodeDecodeError (lit ''invalid start byte''))], Inr 0)"
    using count_words_unreadable [OF ex_read_bad] by (simp add: ex_printable)
  show "count_words_in_file example_fs (lit ''u/'' @ [120, 56448]) = ([], Inl encode_error)"
    using count_words_unreadable [OF ex_read_u] by (simp add: ex_printable)
qed (simp_all add: count_words_in_file_def str_split.simps isspace_def ex_defs)

lemma ex_loop_d:
  "loop example_fs (lit ''d'') ([], [], []) [lit ''a.txt'', lit ''b.txt''] =
     (([3, 2], [(lit ''a.txt'', 3), (lit ''b.txt'', 2)], []), None)"
  by (simp add: loop_body_def ex_join ex_isfile ex_count) (simp add: lit_def)

lemma ex_loop_m:
  "loop example_fs (lit ''m'') ([], [], [])
     [lit ''sub'', lit ''tty'', lit ''link'', lit ''gone'', lit ''bad'', lit ''c''] =
     (([3, 0, 0], [(lit ''link'', 3), (lit ''bad'', 0), (lit ''c'', 0)],
       [error_line (lit ''m/bad'') (UnicodeDecodeError (lit ''invalid start byte''))]), None)"
  by (simp add: loop_body_def ex_join ex_isfile ex_count) (simp add: lit_def)

lemma ex_loop_u:
  "loop example_fs (lit ''u'') ([], [], []) [[120, 56448]] = (([], [], []), Some encode_error)"
  by (simp add: loop_body_def ex_join ex_isfile ex_count)

lemma ex_report_d:
  assumes "\<forall>kv\<in>set fm. printable example_fs (fst kv)"
  shows "report example_fs ([3, 2], fm, out) =
     (out @ [[Lit (CHR 0x0A # ''Word count per file:'')]] @ per_file_lines fm
      @ summary_lines 5 (PyFloat (5 / 2)) (PyFloat (5 / 2)) (PyInt 3), None)"
proof -
  have 1: "statistics_mean [3, 2] = Inr (PyFloat (5 / 2))" by code_simp
  have 2: "statistics_median [3, 2] = Inr (PyFloat (5 / 2))" by code_simp
  have 3: "statistics_mode [3, 2] = Inr 3" by code_simp
  from report_shown [OF _ assms 1 2 3] show ?thesis by simp
qed

lemma ex_report_m:
  assumes "\<forall>kv\<in>set fm. printable example_fs (fst kv)"
  shows "report example_fs ([3, 0, 0], fm, out) =
     (out @ [[Lit (CHR 0x0A # ''Word count per file:'')]] @ per_file_lines fm
      @ summary_lines 3 (PyInt 1) (PyInt 0) (PyInt 0), None)"
proof -
  have 1: "statistics_mean [3, 0, 0] = Inr (PyInt 1)" by code_simp
  have 2: "statistics_median [3, 0, 0] = Inr (PyInt 0)" by code_simp
  have 3: "statistics_mode [3, 0, 0] = Inr 0" by code_simp
  from report_shown [OF _ assms 1 2 3] show ?thesis by simp
qed

lemma ex_analyze_d:
  "analyze_directory_word_counts example_fs (lit ''d'') =
     ([[Lit (CHR 0x0A # ''Word count per file:'')],
       per_file_line (lit ''a.txt'') 3, per_file_line (lit ''b.txt'') 2]
      @ summary_lines 5 (PyFloat (5 / 2)) (PyFloat (5 / 2)) (PyInt 3), None)"
proof -
  have p: "\<forall>kv\<in>set [(lit ''a.txt'', 3 :: int), (lit ''b.txt'', 2)]. printable example_fs (fst kv)"
    by (simp add: ex_printable)
  show ?thesis
    unfolding analyze_directory_word_counts_def ex_listdir_d sum.case ex_loop_d
    by (simp add: ex_report_d [OF p] per_file_lines_def)
qed

lemma ex_analyze_m:
  "analyze_directory_word_counts example_fs (lit ''m'') =
     ([error_line (lit ''m/bad'') (UnicodeDecodeError (lit ''invalid start byte'')),
       [Lit (CHR 0x0A # ''Word count per file:'')],
       per_file_line (lit ''link'') 3, per_file_line (lit ''bad'') 0,
       per_file_line (lit ''c'') 0]
      @ summary_lines 3 (PyInt 1) (PyInt 0) (PyInt 0), None)"
proof -
  have p: "\<forall>kv\<in>set [(lit ''link'', 3 :: int), (lit ''bad'', 0), (lit ''c'', 0)].
      printable example_fs (fst kv)"
    by (simp add: ex_printable)
  show ?thesis
    unfolding analyze_directory_word_counts_def ex_listdir_m sum.case ex_loop_m
    by (simp add: ex_report_m [OF p] per_file_lines_def)
qed

lemma ex_analyze_u:
  "analyze_directory_word_counts example_fs (lit ''u'') = ([], Some encode_error)"
  unfolding analyze_directory_word_counts_def ex_listdir_u sum.case ex_loop_u by simp

subsection \<open>Counting the words of one file\<close>

text \<open>
  C5. A file that can be read as UTF-8 gives no message, and the count that is returned
  is the number of maximal runs of non-whitespace characters of its text: never negative,
  and zero exactly when the text has whitespace only (the empty text included).
\<close>

theorem count_words_in_file_counts_runs:
  assumes "fs_read_text fs filepath = Inr text"
  shows "\<exists>k. count_words_in_file fs filepath = ([], Inr k) \<and>
             k = int (maximal_runs text) \<and> 0 \<le> k \<and>
             (k = 0 \<longleftrightarrow> (\<forall>c\<in>set text. isspace c))"
proof -
  have "maximal_runs text = run_starts True text"
    using length_str_split_runs [of "text"] length_str_split [of "text"] by simp
  then show ?thesis
    using count_words_readable [OF assms]
    by (simp add: length_str_split_runs run_starts_zero)
qed

theorem count_words_in_file_counts_runs_witness:
  "fs_read_text example_fs (lit ''d/a.txt'') = Inr (lit ''one two three'') \<and>
   count_words_in_file example_fs (lit ''d/a.txt'') = ([], Inr 3) \<and>
   maximal_runs (lit ''one two three'') = 3 \<and>
   fs_read_text example_fs (lit ''m/c'') = Inr (lit ''  '') \<and>
   count_words_in_file example_fs (lit ''m/c'') = ([], Inr 0)"
  using count_words_in_file_counts_runs [OF ex_read_a]
    count_words_in_file_counts_runs [OF ex_read_c]
  by (simp add: ex_read_a ex_read_c ex_runs_a ex_blank)

subsection \<open>A directory without regular files\<close>

text \<open>
  C6. When no entry of the directory is a regular file, the output is the one line
  \<open>No readable files found.\<close> and nothing else, and the function returns: no per-file
  section, no summary.
\<close>

theorem no_regular_files_message:
  assumes "fs_listdir fs directory = Inr names"
    and "\<forall>n\<in>set names. \<not> os_path_isfile fs (os_path_join directory n)"
  shows "analyze_directory_word_counts fs directory =
           ([[Lit ''No readable files found.'']], None)"
proof -
  have "regular_entries fs directory names = []"
    using assms(2) by (simp add: regular_entries_def)
  from analyze_no_regular [OF assms(1) this] show ?thesis .
qed

theorem no_regular_files_message_witness:
  "fs_listdir example_fs (lit ''e'') = Inr [lit ''sub''] \<and>
   \<not> os_path_isfile example_fs (os_path_join (lit ''e'') (lit ''sub'')) \<and>
   analyze_directory_word_counts example_fs (lit ''e'') =
     ([[Lit ''No readable files found.'']], None)"
proof -
  have h: "\<forall>n\<in>set [lit ''sub'']. \<not> os_path_isfile example_fs (os_path_join (lit ''e'') n)"
    by (simp add: ex_join ex_isfile)
  from no_regular_files_message [OF ex_listdir_e h] ex_listdir_e show ?thesis
    by (simp add: ex_join ex_isfile)
qed

subsection \<open>Stripping the entered path\<close>






subsection \<open>The counts and the map\<close>

text \<open>
  C9. The names of one listing are distinct. After any number \<open>k\<close> of iterations of
  the loop (all of them, for \<open>k\<close> beyond the length of the listing), and also where an
  exception has ended the loop, the map has as many entries as there are counts, its
  values are the counts, in the same order and hence as multisets, and its keys are the
  regular files the loop has got through: all regular files of the \<open>k\<close> names when no
  exception has ended the loop.
\<close>

theorem counts_and_map_in_lockstep:
  assumes "distinct names"
    and "loop fs directory ([], [], []) (take k names) = ((word_counts, file_word_map, out), x)"
  shows "length file_word_map = length word_counts \<and>
         mset (map snd file_word_map) = mset word_counts \<and>
         map snd file_word_map = word_counts \<and>
         map fst file_word_map = regular_entries fs directory (passed fs directory (take k names)) \<and>
         (x = None \<longrightarrow> map fst file_word_map = regular_entries fs directory (take k names))"
proof -
  let ?fl = "regular_entries fs directory (passed fs directory (take k names))"
  have "distinct (passed fs directory (take k names))"
    using assms(1) by (simp add: passed_def distinct_takeWhile)
  then have d: "distinct ?fl" by (simp add: regular_entries_def)
  from assms(2) have w: "word_counts = counts_of fs directory ?fl"
    and f: "file_word_map = word_map_of fs directory ?fl"
    and x: "x = (if passed fs directory (take k names) = take k names then None
                 else Some encode_error)"
    by (simp_all add: loop_from_start)
  have p: "x = None \<Longrightarrow> passed fs directory (take k names) = take k names"
    using x by (simp split: if_splits)
  have m: "file_word_map = map (\<lambda>n. (n, counted fs (os_path_join directory n))) ?fl"
    by (simp only: f word_map_distinct [OF d])
  have k: "map fst file_word_map = ?fl" by (simp add: m comp_def)
  have v: "map snd file_word_map = word_counts" by (simp add: m w counts_of_def comp_def)
  have l: "length file_word_map = length word_counts" by (simp add: m w counts_of_def)
  have "x = None \<longrightarrow> map fst file_word_map = regular_entries fs directory (take k names)"
    using p k by auto
  with k v l show ?thesis by simp
qed

theorem counts_and_map_in_lockstep_witness:
  "distinct [lit ''sub'', lit ''tty'', lit ''link'', lit ''gone'', lit ''bad'', lit ''c''] \<and>
   loop example_fs (lit ''m'') ([], [], [])
     (take 6 [lit ''sub'', lit ''tty'', lit ''link'', lit ''gone'', lit ''bad'', lit ''c'']) =
     (([3, 0, 0], [(lit ''link'', 3), (lit ''bad'', 0), (lit ''c'', 0)],
       [error_line (lit ''m/bad'') (UnicodeDecodeError (lit ''invalid start byte''))]), None) \<and>
   length [(lit ''link'', 3 :: int), (lit ''bad'', 0), (lit ''c'', 0)] = length [3, 0, 0 :: int] \<and>
   mset (map snd [(lit ''link'', 3 :: int), (lit ''bad'', 0), (lit ''c'', 0)]) = mset [3, 0, 0] \<and>
   map fst [(lit ''link'', 3 :: int), (lit ''bad'', 0), (lit ''c'', 0)] =
     regular_entries example_fs (lit ''m'')
       (take 6 [lit ''sub'', lit ''tty'', lit ''link'', lit ''gone'', lit ''bad'', lit ''c''])"
proof -
  have 1: "distinct [lit ''sub'', lit ''tty'', lit ''link'', lit ''gone'', lit ''bad'', lit ''c'']"
    by (simp add: lit_def)
  have 2: "loop example_fs (lit ''m'') ([], [], [])
     (take 6 [lit ''sub'', lit ''tty'', lit ''link'', lit ''gone'', lit ''bad'', lit ''c'']) =
     (([3, 0, 0], [(lit ''link'', 3), (lit ''bad'', 0), (lit ''c'', 0)],
       [error_line (lit ''m/bad'') (UnicodeDecodeError (lit ''invalid start byte''))]), None)"
    using ex_loop_m by simp
  from counts_and_map_in_lockstep [OF 1 2] have
    "map fst [(lit ''link'', 3 :: int), (lit ''bad'', 0), (lit ''c'', 0)] =
     regular_entries example_fs (lit ''m'')
       (take 6 [lit ''sub'', lit ''tty'', lit ''link'', lit ''gone'', lit ''bad'', lit ''c''])"
    by blast
  with 1 2 show ?thesis by simp
qed

subsection \<open>The mode\<close>

text \<open>
  C1. The directory of the specification's example: \<open>a.txt\<close> has 3 words and \<open>b.txt\<close>
  has 2, so both counts occur once and tie for the highest frequency. The last line of
  the summary shows 3, the count met first, where the claim asks for the marker
  \<open>No unique mode\<close>.
\<close>

theorem tie_reports_first_count_as_mode:
  "count_list [3, 2 :: int] 3 = count_list [3, 2 :: int] 2 \<and>
   loop example_fs (lit ''d'') ([], [], []) [lit ''a.txt'', lit ''b.txt''] =
     (([3, 2], [(lit ''a.txt'', 3), (lit ''b.txt'', 2)], []), None) \<and>
   analyze_directory_word_counts example_fs (lit ''d'') =
     ([[Lit (CHR 0x0A # ''Word count per file:'')],
       per_file_line (lit ''a.txt'') 3,
       per_file_line (lit ''b.txt'') 2,
       [Lit (CHR 0x0A # ''Summary statistics:'')],
       [Lit ''  Total words: '', Fmt (PyInt 5)],
       [Lit ''  Mean words per file: '', Fmt2f (PyFloat (5 / 2))],
       [Lit ''  Median words per file: '', Fmt (PyFloat (5 / 2))],
       [Lit ''  Mode words per file: '', Fmt (PyInt 3)]], None)"
proof -
  have "count_list [3, 2 :: int] 3 = count_list [3, 2 :: int] 2" by simp
  then show ?thesis
    unfolding ex_loop_d ex_analyze_d by (simp add: summary_lines_def)
qed

subsection \<open>Exceptions that leave the function\<close>

lemma ex_regular_m:
  "regular_entries example_fs (lit ''m'')
     [lit ''sub'', lit ''tty'', lit ''link'', lit ''gone'', lit ''bad'', lit ''c'']
     = [lit ''link'', lit ''bad'', lit ''c'']"
  by (simp add: regular_entries_def ex_join ex_isfile)

lemma ex_read_link: "fs_read_text example_fs (lit ''m/link'') = Inr (lit ''one two three'')"
  by (simp add: ex_defs)

lemma ex_shows_m:
  "stdout_shows example_fs (lit ''m'')
     [lit ''sub'', lit ''tty'', lit ''link'', lit ''gone'', lit ''bad'', lit ''c'']"
  unfolding stdout_shows_def ex_regular_m
  by (simp add: ex_join ex_printable ex_read_link ex_read_c ex_read_bad)

lemma unreadable_entry:
  assumes "stdout_shows fs d names" and "n \<in> set (regular_entries fs d names)"
    and "fs_read_text fs (os_path_join d n) = Inl e"
  shows "count_words_in_file fs (os_path_join d n) = ([error_line (os_path_join d n) e], Inr 0)"
    and "counted fs (os_path_join d n) = 0"
    and "error_line (os_path_join d n) e \<in> set (messages_of fs d (regular_entries fs d names))"
    and "(n, 0) \<in> set (word_map_of fs d (regular_entries fs d names))"
proof -
  from assms have "printable fs (os_path_join d n) \<and> printable fs (exn_text e)"
    by (simp add: stdout_shows_def)
  with count_words_unreadable [OF assms(3)]
  show c: "count_words_in_file fs (os_path_join d n) = ([error_line (os_path_join d n) e], Inr 0)"
    by simp
  then show z: "counted fs (os_path_join d n) = 0" by (simp add: counted_def)
  show "error_line (os_path_join d n) e \<in> set (messages_of fs d (regular_entries fs d names))"
    using assms(2) c by (force simp: messages_of_def)
  show "(n, 0) \<in> set (word_map_of fs d (regular_entries fs d names))"
    using assms(2) z by (force simp: word_map_entries)
qed

lemma listed_and_shown_run:
  assumes "fs_listdir fs directory = Inr names" and "stdout_shows fs directory names"
  shows "(regular_entries fs directory names = [] \<longrightarrow>
            analyze_directory_word_counts fs directory =
              ([[Lit ''No readable files found.'']], None)) \<and>
         (regular_entries fs directory names \<noteq> [] \<longrightarrow>
            (\<exists>a b m.
               statistics_mean (counts_of fs directory (regular_entries fs directory names)) = Inr a \<and>
               statistics_median (counts_of fs directory (regular_entries fs directory names)) = Inr b \<and>
               statistics_mode (counts_of fs directory (regular_entries fs directory names)) = Inr m \<and>
               analyze_directory_word_counts fs directory =
                 (messages_of fs directory (regular_entries fs directory names)
                  @ [[Lit (CHR 0x0A # ''Word count per file:'')]]
                  @ per_file_lines (word_map_of fs directory (regular_entries fs directory names))
                  @ summary_lines
                      (sum_list (counts_of fs directory (regular_entries fs directory names)))
                      a b (PyInt m), None))) \<and>
         (\<forall>n\<in>set (regular_entries fs directory names). \<forall>e.
            fs_read_text fs (os_path_join directory n) = Inl e \<longrightarrow>
              count_words_in_file fs (os_path_join directory n) =
                ([error_line (os_path_join directory n) e], Inr 0) \<and>
              error_line (os_path_join directory n) e
                \<in> set (messages_of fs directory (regular_entries fs directory names)) \<and>
              (n, 0) \<in> set (word_map_of fs directory (regular_entries fs directory names)))"
  using analyze_no_regular [OF assms(1)] analyze_shown [OF assms]
    unreadable_entry(1,3,4) [OF assms(2)]
  by blast

text \<open>
  C2, as the program has it. Let \<open>os.listdir\<close> list the directory, and let the standard
  output encode the names, paths and exception texts that the run prints. Then no
  exception leaves the function. With no regular file, the one message is printed and the
  function returns without a report. Otherwise the output is the error lines, the
  per-file section and the summary of the statistics of all counts, and every regular
  file that cannot be read has its error line and its per-file line with 0 words in the
  output. The exception of \<open>os.listdir\<close> itself is not caught, and neither is that of a
  \<open>print\<close>.
\<close>

theorem no_exception_once_listed_and_shown:
  assumes "fs_listdir fs directory = Inr names" and "stdout_shows fs directory names"
  shows "snd (analyze_directory_word_counts fs directory) = None \<and>
         (regular_entries fs directory names = [] \<longrightarrow>
            analyze_directory_word_counts fs directory =
              ([[Lit ''No readable files found.'']], None)) \<and>
         (regular_entries fs directory names \<noteq> [] \<longrightarrow>
            (\<exists>a b m.
               statistics_mean (counts_of fs directory (regular_entries fs directory names)) = Inr a \<and>
               statistics_median (counts_of fs directory (regular_entries fs directory names)) = Inr b \<and>
               statistics_mode (counts_of fs directory (regular_entries fs directory names)) = Inr m \<and>
               analyze_directory_word_counts fs directory =
                 (messages_of fs directory (regular_entries fs directory names)
                  @ [[Lit (CHR 0x0A # ''Word count per file:'')]]
                  @ per_file_lines (word_map_of fs directory (regular_entries fs directory names))
                  @ [[Lit (CHR 0x0A # ''Summary statistics:'')],
                     [Lit ''  Total words: '',
                      Fmt (PyInt (sum_list
                        (counts_of fs directory (regular_entries fs directory names))))],
                     [Lit ''  Mean words per file: '', Fmt2f a],
                     [Lit ''  Median words per file: '', Fmt b],
                     [Lit ''  Mode words per file: '', Fmt (PyInt m)]], None))) \<and>
         (\<forall>n\<in>set (regular_entries fs directory names). \<forall>e.
            fs_read_text fs (os_path_join directory n) = Inl e \<longrightarrow>
              count_words_in_file fs (os_path_join directory n) =
                ([[Lit ''Error reading '', Fmt (PyStr (os_path_join directory n)), Lit '': '',
                   Fmt (PyStr (exn_text e))]], Inr 0) \<and>
              [Lit ''Error reading '', Fmt (PyStr (os_path_join directory n)), Lit '': '',
               Fmt (PyStr (exn_text e))]
                \<in> set (fst (analyze_directory_word_counts fs directory)) \<and>
              [Lit ''  '', Fmt (PyStr n), Lit '': '', Fmt (PyInt 0), Lit '' words'']
                \<in> set (fst (analyze_directory_word_counts fs directory)))"
proof -
  let ?fl = "regular_entries fs directory names"
  note r = listed_and_shown_run [OF assms]
  have 1: "snd (analyze_directory_word_counts fs directory) = None"
    using r by (cases "?fl = []") auto
  have 4: "count_words_in_file fs (os_path_join directory n) =
             ([error_line (os_path_join directory n) e], Inr 0) \<and>
           error_line (os_path_join directory n) e
             \<in> set (fst (analyze_directory_word_counts fs directory)) \<and>
           per_file_line n 0 \<in> set (fst (analyze_directory_word_counts fs directory))"
    if n: "n \<in> set ?fl" and e: "fs_read_text fs (os_path_join directory n) = Inl e" for n e
  proof -
    from n have ne: "?fl \<noteq> []" by auto
    from r ne obtain a b m where
      a: "analyze_directory_word_counts fs directory =
            (messages_of fs directory ?fl @ [[Lit (CHR 0x0A # ''Word count per file:'')]]
             @ per_file_lines (word_map_of fs directory ?fl)
             @ summary_lines (sum_list (counts_of fs directory ?fl)) a b (PyInt m), None)"
      by blast
    from r n e have u: "count_words_in_file fs (os_path_join directory n) =
          ([error_line (os_path_join directory n) e], Inr 0)"
        "error_line (os_path_join directory n) e \<in> set (messages_of fs directory ?fl)"
        "(n, 0) \<in> set (word_map_of fs directory ?fl)"
      by blast+
    from u(3) have "per_file_line n 0 \<in> set (per_file_lines (word_map_of fs directory ?fl))"
      by (simp add: per_file_lines_iff)
    with u(1,2) show ?thesis by (simp add: a)
  qed
  from r 1 4 show ?thesis
    unfolding error_line_def per_file_line_def summary_lines_def by blast
qed

theorem no_exception_once_listed_and_shown_witness:
  "fs_listdir example_fs (lit ''m'')
     = Inr [lit ''sub'', lit ''tty'', lit ''link'', lit ''gone'', lit ''bad'', lit ''c''] \<and>
   stdout_shows example_fs (lit ''m'')
     [lit ''sub'', lit ''tty'', lit ''link'', lit ''gone'', lit ''bad'', lit ''c''] \<and>
   regular_entries example_fs (lit ''m'')
     [lit ''sub'', lit ''tty'', lit ''link'', lit ''gone'', lit ''bad'', lit ''c'']
     = [lit ''link'', lit ''bad'', lit ''c''] \<and>
   fs_read_text example_fs (os_path_join (lit ''m'') (lit ''bad''))
     = Inl (UnicodeDecodeError (lit ''invalid start byte'')) \<and>
   count_words_in_file example_fs (os_path_join (lit ''m'') (lit ''bad'')) =
     ([[Lit ''Error reading '', Fmt (PyStr (os_path_join (lit ''m'') (lit ''bad''))), Lit '': '',
        Fmt (PyStr (exn_text (UnicodeDecodeError (lit ''invalid start byte''))))]], Inr 0) \<and>
   [Lit ''  '', Fmt (PyStr (lit ''bad'')), Lit '': '', Fmt (PyInt 0), Lit '' words'']
     \<in> set (fst (analyze_directory_word_counts example_fs (lit ''m''))) \<and>
   snd (analyze_directory_word_counts example_fs (lit ''m'')) = None"
proof -
  note t = no_exception_once_listed_and_shown [OF ex_listdir_m ex_shows_m, unfolded ex_regular_m]
  have r: "fs_read_text example_fs (os_path_join (lit ''m'') (lit ''bad''))
     = Inl (UnicodeDecodeError (lit ''invalid start byte''))"
    by (simp add: ex_join ex_read_bad)
  have b: "lit ''bad'' \<in> set [lit ''link'', lit ''bad'', lit ''c'']" by simp
  from t b r have
    "count_words_in_file example_fs (os_path_join (lit ''m'') (lit ''bad'')) =
       ([[Lit ''Error reading '', Fmt (PyStr (os_path_join (lit ''m'') (lit ''bad''))), Lit '': '',
          Fmt (PyStr (exn_text (UnicodeDecodeError (lit ''invalid start byte''))))]], Inr 0) \<and>
     [Lit ''  '', Fmt (PyStr (lit ''bad'')), Lit '': '', Fmt (PyInt 0), Lit '' words'']
       \<in> set (fst (analyze_directory_word_counts example_fs (lit ''m'')))"
    by blast
  moreover from t have "snd (analyze_directory_word_counts example_fs (lit ''m'')) = None"
    by blast
  ultimately show ?thesis using ex_listdir_m ex_shows_m ex_regular_m r by blast
qed

text \<open>
  The path \<open>nowhere\<close> does not exist: \<open>os.listdir\<close> raises, nothing is printed, and the
  exception leaves the function.
\<close>

theorem listdir_exception_propagates:
  "fs_listdir example_fs (lit ''nowhere'') = Inl enoent \<and>
   analyze_directory_word_counts example_fs (lit ''nowhere'') = ([], Some enoent)"
  by (simp add: analyze_unlisted ex_listdir_nowhere)

subsection \<open>A file that cannot be read\<close>

lemma unreadable_file_run:
  assumes "fs_listdir fs directory = Inr names" and "stdout_shows fs directory names"
    and "filename \<in> set names"
    and "os_path_isfile fs (os_path_join directory filename)"
    and "fs_read_text fs (os_path_join directory filename) = Inl e"
  shows "count_words_in_file fs (os_path_join directory filename) =
           ([error_line (os_path_join directory filename) e], Inr 0) \<and>
         filename \<in> set (regular_entries fs directory names) \<and>
         length (counts_of fs directory (regular_entries fs directory names)) =
           length (regular_entries fs directory names) \<and>
         sum_list (counts_of fs directory (regular_entries fs directory names)) =
           sum_list (counts_of fs directory
             (filter (\<lambda>n. n \<noteq> filename) (regular_entries fs directory names))) \<and>
         (\<exists>a b m.
            statistics_mean (counts_of fs directory (regular_entries fs directory names)) = Inr a \<and>
            statistics_median (counts_of fs directory (regular_entries fs directory names)) = Inr b \<and>
            statistics_mode (counts_of fs directory (regular_entries fs directory names)) = Inr m \<and>
            analyze_directory_word_counts fs directory =
              (messages_of fs directory (regular_entries fs directory names)
               @ [[Lit (CHR 0x0A # ''Word count per file:'')]]
               @ per_file_lines (word_map_of fs directory (regular_entries fs directory names))
               @ summary_lines
                   (sum_list (counts_of fs directory (regular_entries fs directory names)))
                   a b (PyInt m), None)) \<and>
         error_line (os_path_join directory filename) e
           \<in> set (messages_of fs directory (regular_entries fs directory names)) \<and>
         per_file_line filename 0
           \<in> set (per_file_lines (word_map_of fs directory (regular_entries fs directory names)))"
proof -
  let ?fl = "regular_entries fs directory names"
  have mem: "filename \<in> set ?fl" using assms(3,4) by (simp add: regular_entries_def)
  then have ne: "?fl \<noteq> []" by auto
  note u = unreadable_entry [OF assms(2) mem assms(5)]
  have "sum_list (map (\<lambda>n. counted fs (os_path_join directory n))
            (filter (\<lambda>n. n \<noteq> filename) ?fl)) =
        sum_list (map (\<lambda>n. counted fs (os_path_join directory n)) ?fl)"
    by (rule sum_list_map_filter) (use u(2) in simp)
  then have s: "sum_list (counts_of fs directory ?fl) =
      sum_list (counts_of fs directory (filter (\<lambda>n. n \<noteq> filename) ?fl))"
    by (simp add: counts_of_def)
  have l: "length (counts_of fs directory ?fl) = length ?fl" by (simp add: counts_of_def)
  have p: "per_file_line filename 0 \<in> set (per_file_lines (word_map_of fs directory ?fl))"
    using u(4) by (simp add: per_file_lines_iff)
  from analyze_shown [OF assms(1,2) ne] u(1) u(3) mem s l p show ?thesis by blast
qed

text \<open>
  C4, as the program has it. Let the standard output encode what the run prints. For a
  regular file of the directory whose reading fails, \<open>count_words_in_file\<close> prints
  the one line \<open>Error reading <path>: <description>\<close> and returns 0. The file is among
  the entries that are counted: the list of counts has one count for each regular entry,
  its sum is the sum of the counts of the other entries, and the total, the mean, the
  median and the mode that the summary shows are those of this list. The output holds
  the error line and the per-file line of the file with 0 words. Where the standard
  output cannot encode the path or the description, the \<open>print\<close> in the handler raises
  and no count is returned.
\<close>

theorem unreadable_file_counts_zero:
  assumes "fs_listdir fs directory = Inr names" and "stdout_shows fs directory names"
    and "filename \<in> set names"
    and "os_path_isfile fs (os_path_join directory filename)"
    and "fs_read_text fs (os_path_join directory filename) = Inl e"
  shows "count_words_in_file fs (os_path_join directory filename) =
           ([[Lit ''Error reading '', Fmt (PyStr (os_path_join directory filename)), Lit '': '',
              Fmt (PyStr (exn_text e))]], Inr 0) \<and>
         filename \<in> set (regular_entries fs directory names) \<and>
         length (counts_of fs directory (regular_entries fs directory names)) =
           length (regular_entries fs directory names) \<and>
         sum_list (counts_of fs directory (regular_entries fs directory names)) =
           sum_list (counts_of fs directory
             (filter (\<lambda>n. n \<noteq> filename) (regular_entries fs directory names))) \<and>
         (\<exists>a b m.
            statistics_mean (counts_of fs directory (regular_entries fs directory names)) = Inr a \<and>
            statistics_median (counts_of fs directory (regular_entries fs directory names)) = Inr b \<and>
            statistics_mode (counts_of fs directory (regular_entries fs directory names)) = Inr m \<and>
            analyze_directory_word_counts fs directory =
              (messages_of fs directory (regular_entries fs directory names)
               @ [[Lit (CHR 0x0A # ''Word count per file:'')]]
               @ per_file_lines (word_map_of fs directory (regular_entries fs directory names))
               @ [[Lit (CHR 0x0A # ''Summary statistics:'')],
                  [Lit ''  Total words: '',
                   Fmt (PyInt (sum_list
                     (counts_of fs directory (regular_entries fs directory names))))],
                  [Lit ''  Mean words per file: '', Fmt2f a],
                  [Lit ''  Median words per file: '', Fmt b],
                  [Lit ''  Mode words per file: '', Fmt (PyInt m)]], None)) \<and>
         [Lit ''Error reading '', Fmt (PyStr (os_path_join directory filename)), Lit '': '',
          Fmt (PyStr (exn_text e))]
           \<in> set (fst (analyze_directory_word_counts fs directory)) \<and>
         [Lit ''  '', Fmt (PyStr filename), Lit '': '', Fmt (PyInt 0), Lit '' words'']
           \<in> set (fst (analyze_directory_word_counts fs directory))"
proof -
  let ?fl = "regular_entries fs directory names"
  note r = unreadable_file_run [OF assms]
  from r obtain a b m where
    a: "analyze_directory_word_counts fs directory =
          (messages_of fs directory ?fl @ [[Lit (CHR 0x0A # ''Word count per file:'')]]
           @ per_file_lines (word_map_of fs directory ?fl)
           @ summary_lines (sum_list (counts_of fs directory ?fl)) a b (PyInt m), None)"
    by blast
  from r have "error_line (os_path_join directory filename) e
      \<in> set (messages_of fs directory ?fl)"
    and "per_file_line filename 0 \<in> set (per_file_lines (word_map_of fs directory ?fl))"
    by blast+
  then have m: "error_line (os_path_join directory filename) e
        \<in> set (fst (analyze_directory_word_counts fs directory))"
      "per_file_line filename 0 \<in> set (fst (analyze_directory_word_counts fs directory))"
    by (simp_all add: a)
  from r m show ?thesis
    unfolding error_line_def per_file_line_def summary_lines_def by blast
qed

theorem unreadable_file_counts_zero_witness:
  "fs_listdir example_fs (lit ''m'')
     = Inr [lit ''sub'', lit ''tty'', lit ''link'', lit ''gone'', lit ''bad'', lit ''c''] \<and>
   stdout_shows example_fs (lit ''m'')
     [lit ''sub'', lit ''tty'', lit ''link'', lit ''gone'', lit ''bad'', lit ''c''] \<and>
   os_path_isfile example_fs (os_path_join (lit ''m'') (lit ''bad'')) \<and>
   fs_read_text example_fs (os_path_join (lit ''m'') (lit ''bad''))
     = Inl (UnicodeDecodeError (lit ''invalid start byte'')) \<and>
   count_words_in_file example_fs (os_path_join (lit ''m'') (lit ''bad'')) =
     ([[Lit ''Error reading '', Fmt (PyStr (os_path_join (lit ''m'') (lit ''bad''))), Lit '': '',
        Fmt (PyStr (exn_text (UnicodeDecodeError (lit ''invalid start byte''))))]], Inr 0) \<and>
   counts_of example_fs (lit ''m'') [lit ''link'', lit ''bad'', lit ''c''] = [3, 0, 0] \<and>
   analyze_directory_word_counts example_fs (lit ''m'') =
     ([error_line (lit ''m/bad'') (UnicodeDecodeError (lit ''invalid start byte'')),
       [Lit (CHR 0x0A # ''Word count per file:'')],
       per_file_line (lit ''link'') 3, per_file_line (lit ''bad'') 0,
       per_file_line (lit ''c'') 0]
      @ summary_lines 3 (PyInt 1) (PyInt 0) (PyInt 0), None)"
proof -
  have 1: "lit ''bad'' \<in> set [lit ''sub'', lit ''tty'', lit ''link'', lit ''gone'', lit ''bad'', lit ''c'']"
    by simp
  have 2: "os_path_isfile example_fs (os_path_join (lit ''m'') (lit ''bad''))"
    by (simp add: ex_join ex_isfile)
  have 3: "fs_read_text example_fs (os_path_join (lit ''m'') (lit ''bad''))
     = Inl (UnicodeDecodeError (lit ''invalid start byte''))"
    by (simp add: ex_join ex_read_bad)
  have 4: "counts_of example_fs (lit ''m'') [lit ''link'', lit ''bad'', lit ''c''] = [3, 0, 0]"
    by (simp add: counts_of_def counted_def ex_join ex_count)
  from unreadable_file_counts_zero [OF ex_listdir_m ex_shows_m 1 2 3]
  have "count_words_in_file example_fs (os_path_join (lit ''m'') (lit ''bad'')) =
     ([[Lit ''Error reading '', Fmt (PyStr (os_path_join (lit ''m'') (lit ''bad''))), Lit '': '',
        Fmt (PyStr (exn_text (UnicodeDecodeError (lit ''invalid start byte''))))]], Inr 0)"
    by blast
  with ex_listdir_m ex_shows_m 2 3 4 ex_analyze_m show ?thesis by blast
qed

text \<open>
  Directory \<open>u\<close> holds a regular file that is not UTF-8 and whose name ends in a lone
  surrogate, as \<open>os.listdir\<close> returns it for a name that is not UTF-8 either. The \<open>print\<close>
  of the handler raises \<open>UnicodeEncodeError\<close> on the path: no line is printed, no count is
  returned, and the exception leaves \<open>count_words_in_file\<close> and the whole function.
\<close>

theorem unencodable_path_raises_in_handler:
  "os_path_isfile example_fs (os_path_join (lit ''u'') [120, 56448]) \<and>
   fs_read_text example_fs (os_path_join (lit ''u'') [120, 56448])
     = Inl (UnicodeDecodeError (lit ''invalid start byte'')) \<and>
   count_words_in_file example_fs (os_path_join (lit ''u'') [120, 56448])
     = ([], Inl encode_error) \<and>
   analyze_directory_word_counts example_fs (lit ''u'') = ([], Some encode_error)"
  by (simp add: ex_join ex_isfile ex_read_u ex_count ex_analyze_u)

subsection \<open>Which entries are taken\<close>






subsection \<open>The median\<close>

lemma statistics_median_value:
  assumes "data \<noteq> []" and "\<forall>c\<in>set data. 0 \<le> c \<and> c \<le> 2 ^ 52"
  shows "\<exists>v. statistics_median data = Inr v \<and> number_of v = Some (median_of_sorted data)"
proof (cases "odd (length data)")
  case True
  then have "length data mod 2 = 1" by (simp add: odd_iff_mod_2_eq_one)
  moreover have "sort data \<noteq> []" using assms(1) by (metis length_sort length_0_conv)
  ultimately show ?thesis using True
    by (simp add: statistics_median_def median_of_sorted_def number_of_def Let_def)
next
  case False
  have ne: "sort data \<noteq> []" using assms(1) by (metis length_sort length_0_conv)
  define s where "s = sort data"
  define i where "i = length data div 2"
  from assms(1) have pos: "0 < length data" by simp
  from False have ev: "even (length data)" by simp
  from ev obtain h where h: "length data = 2 * h" by (auto elim: evenE)
  with pos have hp: "0 < h" by linarith
  have n: "length data mod 2 \<noteq> 1" "0 < i" "i < length data"
    using hp by (simp_all add: i_def h)
  have len: "length s = length data" by (simp add: s_def)
  have "s ! (i - 1) \<in> set s" "s ! i \<in> set s" using n len by simp_all
  then have "s ! (i - 1) \<in> set data" "s ! i \<in> set data" by (simp_all add: s_def)
  with assms(2) have r: "0 \<le> s ! (i - 1)" "s ! (i - 1) \<le> 2 ^ 52" "0 \<le> s ! i" "s ! i \<le> 2 ^ 52"
    by blast+
  have "(2::int) ^ 53 = 2 ^ 52 + 2 ^ 52" by simp
  with r have b: "0 \<le> s ! (i - 1) + s ! i" "s ! (i - 1) + s ! i \<le> 2 ^ 53" by linarith+
  have m: "statistics_median data = Inr (PyFloat (to_double (of_int (s ! (i - 1) + s ! i) / 2)))"
    using ne n(1) by (simp add: statistics_median_def Let_def s_def i_def)
  have "median_of_sorted data = of_int (s ! (i - 1) + s ! i) / 2"
    using False by (simp add: median_of_sorted_def Let_def s_def i_def)
  then show ?thesis
    unfolding m using to_double_half [OF b] by (simp add: number_of_def)
qed

lemma statistics_median_kind:
  assumes "statistics_median data = Inr v" and "number_of v = Some (median_of_sorted data)"
  shows "v = (if odd (length data) then PyInt (sort data ! (length data div 2))
              else PyFloat (median_of_sorted data))"
proof (cases "odd (length data)")
  case True
  then have "length data mod 2 = 1" by (simp add: odd_iff_mod_2_eq_one)
  with assms(1) True show ?thesis
    by (auto simp: statistics_median_def Let_def split: if_splits)
next
  case False
  then have "length data mod 2 \<noteq> 1" by (simp add: odd_iff_mod_2_eq_one)
  with assms False show ?thesis
    by (auto simp: statistics_median_def Let_def number_of_def split: if_splits)
qed

text \<open>
  A count is the length of the list that \<open>str.split\<close> has built in memory from a text
  that is in memory too, and it is at most the length of that text; an unreadable file
  counts 0. Counts are therefore far below \<open>2\<^sup>5\<^sup>2\<close>: a text of \<open>2\<^sup>5\<^sup>2\<close> characters
  takes 4 PiB.
\<close>

lemma length_str_split_le: "length (str_split s) \<le> length s"
proof -
  have "maximal_runs s \<le> length [0..<length s]"
    unfolding maximal_runs_def by (rule length_filter_le)
  then show ?thesis by (simp add: length_str_split_runs)
qed

lemma counted_bounds:
  "0 \<le> counted fs p \<and>
   (\<forall>t. fs_read_text fs p = Inr t \<longrightarrow> counted fs p \<le> int (length t)) \<and>
   (\<forall>e. fs_read_text fs p = Inl e \<longrightarrow> counted fs p = 0)"
  using length_str_split_le
  by (auto simp: counted_def count_words_in_file_def split: sum.splits option.splits)

lemma median_run:
  assumes "word_counts \<noteq> []" and "\<forall>c\<in>set word_counts. 0 \<le> c \<and> c \<le> 2 ^ 52"
    and "\<forall>kv\<in>set file_word_map. printable fs (fst kv)"
  shows "\<exists>mean_words median_words m.
           report fs (word_counts, file_word_map, out) =
             (out @ [[Lit (CHR 0x0A # ''Word count per file:'')]]
              @ per_file_lines file_word_map
              @ summary_lines (sum_list word_counts) mean_words median_words (PyInt m), None) \<and>
           statistics_median word_counts = Inr median_words \<and>
           number_of median_words = Some (median_of_sorted word_counts) \<and>
           median_words =
             (if odd (length word_counts)
              then PyInt (sort word_counts ! (length word_counts div 2))
              else PyFloat (median_of_sorted word_counts))"
proof -
  from statistics_mean_returns [OF assms(1)] obtain a where a: "statistics_mean word_counts = Inr a" ..
  from statistics_median_value [OF assms(1,2)] obtain b where
    b: "statistics_median word_counts = Inr b" "number_of b = Some (median_of_sorted word_counts)"
    by blast
  from statistics_mode_returns [OF assms(1)] obtain m where m: "statistics_mode word_counts = Inr m" ..
  from report_shown [OF assms(1,3) a b(1) m] b statistics_median_kind [OF b] show ?thesis by blast
qed

text \<open>
  C8. For every non-empty sequence of counts that a run can collect (a count is the
  length of a list in memory, from 0 to \<open>2\<^sup>5\<^sup>2\<close> by far), the report prints, on the line
  \<open>Median words per file:\<close>, the median of the standard definition over the sorted
  counts: for an odd number of counts the middle element, an \<open>int\<close>; for an even number
  the average of the two middle elements, a \<open>float\<close> that holds it exactly.
\<close>

theorem median_is_standard:
  assumes "word_counts \<noteq> []" and "\<forall>c\<in>set word_counts. 0 \<le> c \<and> c \<le> 2 ^ 52"
    and "\<forall>kv\<in>set file_word_map. printable fs (fst kv)"
  shows "\<exists>mean_words median_words m.
           report fs (word_counts, file_word_map, out) =
             (out @ [[Lit (CHR 0x0A # ''Word count per file:'')]]
              @ per_file_lines file_word_map
              @ [[Lit (CHR 0x0A # ''Summary statistics:'')],
                 [Lit ''  Total words: '', Fmt (PyInt (sum_list word_counts))],
                 [Lit ''  Mean words per file: '', Fmt2f mean_words],
                 [Lit ''  Median words per file: '', Fmt median_words],
                 [Lit ''  Mode words per file: '', Fmt (PyInt m)]], None) \<and>
           statistics_median word_counts = Inr median_words \<and>
           number_of median_words = Some (median_of_sorted word_counts) \<and>
           median_words =
             (if odd (length word_counts)
              then PyInt (sort word_counts ! (length word_counts div 2))
              else PyFloat ((of_int (sort word_counts ! (length word_counts div 2 - 1)) +
                             of_int (sort word_counts ! (length word_counts div 2))) / 2))"
proof -
  have e: "median_of_sorted word_counts =
      (of_int (sort word_counts ! (length word_counts div 2 - 1)) +
       of_int (sort word_counts ! (length word_counts div 2))) / 2"
    if "\<not> odd (length word_counts)"
    using that by (simp add: median_of_sorted_def Let_def)
  from median_run [OF assms, of out] obtain a b m where
    r: "report fs (word_counts, file_word_map, out) =
             (out @ [[Lit (CHR 0x0A # ''Word count per file:'')]]
              @ per_file_lines file_word_map
              @ summary_lines (sum_list word_counts) a b (PyInt m), None)"
       "statistics_median word_counts = Inr b"
       "number_of b = Some (median_of_sorted word_counts)"
       "b = (if odd (length word_counts)
              then PyInt (sort word_counts ! (length word_counts div 2))
              else PyFloat (median_of_sorted word_counts))"
    by blast
  from r(4) e have "b = (if odd (length word_counts)
              then PyInt (sort word_counts ! (length word_counts div 2))
              else PyFloat ((of_int (sort word_counts ! (length word_counts div 2 - 1)) +
                             of_int (sort word_counts ! (length word_counts div 2))) / 2))"
    by simp
  with r(1,2,3) show ?thesis unfolding summary_lines_def by blast
qed

theorem median_is_standard_witness:
  "[3, 2 :: int] \<noteq> [] \<and>
   printable example_fs (lit ''a.txt'') \<and> printable example_fs (lit ''b.txt'') \<and>
   (\<exists>mean_words m.
      report example_fs ([3, 2], [(lit ''a.txt'', 3), (lit ''b.txt'', 2)], []) =
        ([[Lit (CHR 0x0A # ''Word count per file:'')],
          [Lit ''  '', Fmt (PyStr (lit ''a.txt'')), Lit '': '', Fmt (PyInt 3), Lit '' words''],
          [Lit ''  '', Fmt (PyStr (lit ''b.txt'')), Lit '': '', Fmt (PyInt 2), Lit '' words''],
          [Lit (CHR 0x0A # ''Summary statistics:'')],
          [Lit ''  Total words: '', Fmt (PyInt 5)],
          [Lit ''  Mean words per file: '', Fmt2f mean_words],
          [Lit ''  Median words per file: '', Fmt (PyFloat (5 / 2))],
          [Lit ''  Mode words per file: '', Fmt (PyInt m)]], None)) \<and>
   statistics_median [3, 2] = Inr (PyFloat (5 / 2)) \<and>
   median_of_sorted [3, 2] = 5 / 2"
proof -
  have 1: "[3, 2 :: int] \<noteq> []" by simp
  have 2: "\<forall>c\<in>set [3, 2 :: int]. 0 \<le> c \<and> c \<le> 2 ^ 52" by simp
  have 3: "\<forall>kv\<in>set [(lit ''a.txt'', 3 :: int), (lit ''b.txt'', 2)]. printable example_fs (fst kv)"
    by (simp add: ex_printable)
  have 4: "median_of_sorted [3, 2] = 5 / 2" by code_simp
  have 5: "sort [3, 2 :: int] = [2, 3]" by code_simp
  from median_is_standard [OF 1 2 3, of "[]"]
  show ?thesis unfolding 4 5 by (simp add: ex_printable per_file_lines_def per_file_line_def)
qed

subsection \<open>The total and the mean\<close>

lemma shown_mean_accurate:
  assumes "data \<noteq> []" and "\<forall>c\<in>set data. 0 \<le> c" and "200 * sum_list data < 2 ^ 53"
  shows "\<exists>v d. statistics_mean data = Inr v \<and> shown_2f v = Some d \<and>
           \<bar>d - exact_mean data\<bar> \<le> 1 / 200"
proof -
  define T where "T = sum_list data"
  define n where "n = int (length data)"
  have n: "0 < n" using assms(1) by (simp add: n_def)
  have T0: "0 \<le> T" unfolding T_def using assms(2) by (intro sum_list_nonneg) simp
  have T53: "200 * T < 2 ^ 53" using assms(3) by (simp add: T_def)
  with T0 have T45: "T < 2 ^ 53" by simp
  have em: "exact_mean data = of_int T / of_int n" by (simp add: exact_mean_def T_def n_def)
  have nn: "\<not> n < 1" using n by simp
  show ?thesis
  proof (cases "T mod n = 0")
    case True
    define k where "k = T div n"
    have Tk: "T = k * n" using True div_mult_mod_eq [of T n] by (simp add: k_def)
    have k0: "0 \<le> k" using T0 n by (simp add: k_def pos_imp_zdiv_nonneg_iff)
    have "k * 1 \<le> k * n" using k0 n by (intro mult_left_mono) simp_all
    then have "k \<le> T" by (simp add: Tk)
    with T45 have k53: "k < 2 ^ 53" by simp
    have m: "statistics_mean data = Inr (PyInt k)"
      using True nn by (simp add: statistics_mean_def Let_def T_def [symmetric] n_def [symmetric] k_def)
    have td: "to_double (of_int k) = of_int k"
    proof (cases "k = 0")
      case True
      then show ?thesis by (simp add: to_double_def)
    next
      case False
      with k0 have "0 < k" by simp
      from to_double_int [OF this k53] show ?thesis .
    qed
    have "(of_int k :: rat) * 100 = of_int (k * 100)" by simp
    then have "round_half_even (of_int k * 100) = k * 100"
      by (simp only: round_half_even_of_int)
    then have s: "shown_2f (PyInt k) = Some (of_int k)" by (simp add: shown_2f_def td)
    have "exact_mean data = of_int k" using n by (simp add: em Tk)
    with m s show ?thesis by simp
  next
    case False
    then have "T \<noteq> 0" by auto
    with T0 have Tp: "0 < T" by simp
    define q :: rat where "q = of_int T / of_int n"
    have qp: "0 < q" using Tp n by (simp add: q_def)
    have m: "statistics_mean data = Inr (PyFloat (to_double q))"
      using False nn by (simp add: statistics_mean_def Let_def T_def [symmetric] n_def [symmetric] q_def)
    have s: "shown_2f (PyFloat (to_double q)) = Some (of_int (round_half_even (to_double q * 100)) / 100)"
      by (simp add: shown_2f_def)
    have "\<bar>to_double q - of_int T / of_int n\<bar> \<le> (of_int T / of_int n) / 2 ^ 53"
      using to_double_error [OF qp] by (simp only: q_def)
    from two_decimals_accurate [OF n T0 T53 this]
    have "\<bar>of_int (round_half_even (to_double q * 100)) / 100 - exact_mean data\<bar> \<le> 1 / 200"
      by (simp only: em)
    with m s show ?thesis by blast
  qed
qed

lemma shown_mean_defined:
  assumes "statistics_mean data = Inr v"
  shows "shown_2f v \<noteq> None"
proof (cases v)
  case (PyStr s)
  with assms show ?thesis by (simp add: statistics_mean_def Let_def split: if_splits)
qed (simp_all add: shown_2f_def)

lemma mean_run:
  assumes "word_counts \<noteq> []" and "\<forall>kv\<in>set file_word_map. printable fs (fst kv)"
  shows "\<exists>mean_words median_words m d.
           report fs (word_counts, file_word_map, out) =
             (out @ [[Lit (CHR 0x0A # ''Word count per file:'')]]
              @ per_file_lines file_word_map
              @ summary_lines (sum_list word_counts) mean_words median_words (PyInt m), None) \<and>
           statistics_mean word_counts = Inr mean_words \<and>
           shown_2f mean_words = Some d \<and>
           ((\<forall>c\<in>set word_counts. 0 \<le> c) \<and> 200 * sum_list word_counts < 2 ^ 53 \<longrightarrow>
              \<bar>d - exact_mean word_counts\<bar> \<le> 1 / 200)"
proof -
  from statistics_mean_returns [OF assms(1)] obtain a where a: "statistics_mean word_counts = Inr a" ..
  from shown_mean_defined [OF a] obtain d where d: "shown_2f a = Some d" by auto
  from statistics_median_returns [OF assms(1)] obtain b where
    b: "statistics_median word_counts = Inr b" ..
  from statistics_mode_returns [OF assms(1)] obtain m where m: "statistics_mode word_counts = Inr m" ..
  have "\<bar>d - exact_mean word_counts\<bar> \<le> 1 / 200"
    if "(\<forall>c\<in>set word_counts. 0 \<le> c) \<and> 200 * sum_list word_counts < 2 ^ 53"
  proof -
    from that shown_mean_accurate [OF assms(1)] obtain v d' where
      "statistics_mean word_counts = Inr v" "shown_2f v = Some d'"
      "\<bar>d' - exact_mean word_counts\<bar> \<le> 1 / 200"
      by blast
    with a d show ?thesis by simp
  qed
  with report_shown [OF assms a b m] a d show ?thesis by blast
qed

text \<open>
  C7, as the program has it. For every non-empty sequence of counts the report prints,
  on the line \<open>Total words:\<close>, the sum of the counts, an exact integer, and on the line
  \<open>Mean words per file:\<close> the value of \<open>statistics.mean\<close> with two decimals. When no
  count is negative and 200 times the sum is below \<open>2\<^sup>5\<^sup>3\<close> (a sum of at most
  45035996273704), the number displayed is within half a unit of the second decimal of
  the total divided by the number of files. Beyond that the conversion of the mean to a
  \<open>float\<close> can turn the second decimal.
\<close>

theorem total_exact_and_mean_to_two_decimals:
  assumes "word_counts \<noteq> []" and "\<forall>kv\<in>set file_word_map. printable fs (fst kv)"
  shows "\<exists>mean_words median_words m d.
           report fs (word_counts, file_word_map, out) =
             (out @ [[Lit (CHR 0x0A # ''Word count per file:'')]]
              @ per_file_lines file_word_map
              @ [[Lit (CHR 0x0A # ''Summary statistics:'')],
                 [Lit ''  Total words: '', Fmt (PyInt (sum_list word_counts))],
                 [Lit ''  Mean words per file: '', Fmt2f mean_words],
                 [Lit ''  Median words per file: '', Fmt median_words],
                 [Lit ''  Mode words per file: '', Fmt (PyInt m)]], None) \<and>
           statistics_mean word_counts = Inr mean_words \<and>
           shown_2f mean_words = Some d \<and>
           ((\<forall>c\<in>set word_counts. 0 \<le> c) \<and> 200 * sum_list word_counts < 2 ^ 53 \<longrightarrow>
              \<bar>d - of_int (sum_list word_counts) / of_int (int (length word_counts))\<bar>
                \<le> 1 / 200)"
  using mean_run [OF assms, of out] unfolding summary_lines_def exact_mean_def .

theorem total_exact_and_mean_to_two_decimals_witness:
  "[3, 2 :: int] \<noteq> [] \<and>
   printable example_fs (lit ''a.txt'') \<and> printable example_fs (lit ''b.txt'') \<and>
   200 * sum_list [3, 2 :: int] < 2 ^ 53 \<and>
   (\<exists>mean_words median_words m d.
      report example_fs ([3, 2], [(lit ''a.txt'', 3), (lit ''b.txt'', 2)], []) =
        ([[Lit (CHR 0x0A # ''Word count per file:'')],
          [Lit ''  '', Fmt (PyStr (lit ''a.txt'')), Lit '': '', Fmt (PyInt 3), Lit '' words''],
          [Lit ''  '', Fmt (PyStr (lit ''b.txt'')), Lit '': '', Fmt (PyInt 2), Lit '' words''],
          [Lit (CHR 0x0A # ''Summary statistics:'')],
          [Lit ''  Total words: '', Fmt (PyInt 5)],
          [Lit ''  Mean words per file: '', Fmt2f mean_words],
          [Lit ''  Median words per file: '', Fmt median_words],
          [Lit ''  Mode words per file: '', Fmt (PyInt m)]], None) \<and>
      statistics_mean [3, 2] = Inr mean_words \<and>
      shown_2f mean_words = Some d \<and>
      \<bar>d - 5 / 2\<bar> \<le> 1 / 200)"
proof -
  have 1: "[3, 2 :: int] \<noteq> []" by simp
  have 2: "\<forall>kv\<in>set [(lit ''a.txt'', 3 :: int), (lit ''b.txt'', 2)]. printable example_fs (fst kv)"
    by (simp add: ex_printable)
  have 3: "(\<forall>c\<in>set [3, 2 :: int]. 0 \<le> c) \<and> 200 * sum_list [3, 2 :: int] < 2 ^ 53" by simp
  have 4: "200 * sum_list [3, 2 :: int] < 2 ^ 53" by simp
  from total_exact_and_mean_to_two_decimals [OF 1 2, of "[]"] 3
  have "\<exists>mean_words median_words m d.
      report example_fs ([3, 2], [(lit ''a.txt'', 3), (lit ''b.txt'', 2)], []) =
        ([] @ [[Lit (CHR 0x0A # ''Word count per file:'')]]
         @ per_file_lines [(lit ''a.txt'', 3), (lit ''b.txt'', 2)]
         @ [[Lit (CHR 0x0A # ''Summary statistics:'')],
            [Lit ''  Total words: '', Fmt (PyInt (sum_list [3, 2]))],
            [Lit ''  Mean words per file: '', Fmt2f mean_words],
            [Lit ''  Median words per file: '', Fmt median_words],
            [Lit ''  Mode words per file: '', Fmt (PyInt m)]], None) \<and>
      statistics_mean [3, 2] = Inr mean_words \<and>
      shown_2f mean_words = Some d \<and>
      \<bar>d - of_int (sum_list [3, 2]) / of_int (int (length [3, 2 :: int]))\<bar> \<le> 1 / 200"
    by blast
  then have "\<exists>mean_words median_words m d.
      report example_fs ([3, 2], [(lit ''a.txt'', 3), (lit ''b.txt'', 2)], []) =
        ([[Lit (CHR 0x0A # ''Word count per file:'')],
          [Lit ''  '', Fmt (PyStr (lit ''a.txt'')), Lit '': '', Fmt (PyInt 3), Lit '' words''],
          [Lit ''  '', Fmt (PyStr (lit ''b.txt'')), Lit '': '', Fmt (PyInt 2), Lit '' words''],
          [Lit (CHR 0x0A # ''Summary statistics:'')],
          [Lit ''  Total words: '', Fmt (PyInt 5)],
          [Lit ''  Mean words per file: '', Fmt2f mean_words],
          [Lit ''  Median words per file: '', Fmt median_words],
          [Lit ''  Mode words per file: '', Fmt (PyInt m)]], None) \<and>
      statistics_mean [3, 2] = Inr mean_words \<and>
      shown_2f mean_words = Some d \<and>
      \<bar>d - 5 / 2\<bar> \<le> 1 / 200"
    by (simp add: per_file_lines_def per_file_line_def)
  with 1 4 ex_printable(1,2) show ?thesis by blast
qed

text \<open>
  A directory of 1464009 regular files, 812525 of them with 33584311 words and 651484
  with 33584312 (links to two files will do): the mean is 33584311.44499999658...,
  which two decimals round to 33584311.44, and the summary shows 33584311.45.
\<close>

theorem mean_shown_wrong_for_many_files:
  "sum_list (replicate 812525 33584311 @ replicate 651484 (33584312 :: int)) = 49167734214283 \<and>
   length (replicate 812525 33584311 @ replicate 651484 (33584312 :: int)) = 1464009 \<and>
   statistics_mean (replicate 812525 33584311 @ replicate 651484 33584312)
     = Inr (PyFloat (4507609978592297 / 134217728)) \<and>
   shown_2f (PyFloat (4507609978592297 / 134217728)) = Some (671686229 / 20) \<and>
   exact_mean (replicate 812525 33584311 @ replicate 651484 33584312)
     = 49167734214283 / 1464009 \<and>
   \<not> \<bar>671686229 / 20 - 49167734214283 / 1464009\<bar> \<le> (1 / 200 :: rat)"
proof -
  have s: "sum_list (replicate 812525 33584311 @ replicate 651484 (33584312 :: int))
      = 49167734214283"
    by (simp add: sum_list_replicate)
  have l: "length (replicate 812525 33584311 @ replicate 651484 (33584312 :: int)) = 1464009"
    by simp
  have t: "to_double (49167734214283 / 1464009) = 4507609978592297 / 134217728" by code_simp
  have m: "statistics_mean (replicate 812525 33584311 @ replicate 651484 33584312)
     = Inr (PyFloat (4507609978592297 / 134217728))"
    unfolding statistics_mean_def s l by (simp add: t)
  have f: "shown_2f (PyFloat (4507609978592297 / 134217728)) = Some (671686229 / 20)"
    by code_simp
  have e: "exact_mean (replicate 812525 33584311 @ replicate 651484 33584312)
     = 49167734214283 / 1464009"
    unfolding exact_mean_def s l by simp
  have n: "\<not> \<bar>671686229 / 20 - 49167734214283 / 1464009\<bar> \<le> (1 / 200 :: rat)" by simp
  from s l m f e n show ?thesis by blast
qed

end
